theory Spec2Isabelle
  imports Complex_Main "HOL-Library.AList"
begin

section \<open>The VAE training controller of \<^verbatim>\<open>molecules/ml/unsupervised/vae/vae.py\<close>\<close>

text \<open>
  The development embeds the class \<^verbatim>\<open>VAE\<close> (its methods \<^verbatim>\<open>_configure_device\<close>,
  \<^verbatim>\<open>train\<close>, \<^verbatim>\<open>_train\<close>, \<^verbatim>\<open>_validate\<close>, \<^verbatim>\<open>_load_checkpoint\<close>), the loss
  functions and \<^verbatim>\<open>VAEModel.forward\<close>. A Python name that starts with an underscore is
  prefixed with the class name (\<^verbatim>\<open>VAE._train\<close> is \<open>VAE__train\<close>).

  Conventions of the embedding:
  \<^item> Python floats and the scalars of torch are real numbers: rounding, infinities and NaN
    are outside the model. A tensor is the list of its elements.
  \<^item> A Python exception is a value: every function that can raise returns a sum, with the
    exception on the left.
  \<^item> A \<^verbatim>\<open>dict\<close> is an association list kept in insertion order, written with
    \<open>AList.update\<close> and read with \<open>map_of\<close>.
\<close>

subsection \<open>Exceptions\<close>

datatype py_error =
    ValueError string
  | KeyError string
  | UnboundLocalError string
  | TypeError
  | TorchError

text \<open>
  What leaves \<^verbatim>\<open>train\<close>: an exception of the controller's own statements, or whatever a
  callback's hook raised (the payload \<open>'x\<close> is the callback's business).
\<close>

datatype 'x raised = Controller py_error | Callback 'x

subsection \<open>Device resolution: \<^verbatim>\<open>VAE._configure_device\<close>\<close>

text \<open>
  \<open>Cuda\<close> is \<^verbatim>\<open>torch.device("cuda")\<close>, \<open>Cpu\<close> is \<^verbatim>\<open>torch.device("cpu")\<close> and
  \<open>CudaIdx k\<close> is \<^verbatim>\<open>torch.device(f"cuda:{k}")\<close>. The argument \<^verbatim>\<open>gpu\<close> is \<^verbatim>\<open>None\<close>, an
  \<^verbatim>\<open>int\<close>, a tuple of ids and \<^verbatim>\<open>None\<close>s of any length, or some other object.
\<close>

datatype device = Cpu | Cuda | CudaIdx int

datatype gpu_request = GpuNone | GpuInt int | GpuTuple "int option list" | GpuOther

definition not_available :: py_error where
  "not_available = ValueError ''Specified GPU training but CUDA is not available.''"

definition invalid_device :: py_error where
  "invalid_device = ValueError ''Specified GPU device is invalid. Should be int, 2-tuple or None.''"

definition default_device :: "bool \<Rightarrow> device" where
  "default_device cuda_is_available = (if cuda_is_available then Cuda else Cpu)"

fun VAE__configure_device :: "bool \<Rightarrow> gpu_request \<Rightarrow> py_error + device \<times> device" where
  "VAE__configure_device cuda_is_available GpuNone =
     Inr (default_device cuda_is_available, default_device cuda_is_available)"
| "VAE__configure_device cuda_is_available (GpuTuple xs) =
     (if None \<in> set xs
      then Inr (default_device cuda_is_available, default_device cuda_is_available)
      else if \<not> cuda_is_available then Inl not_available
      else (case xs of
              [Some a, Some b] \<Rightarrow> Inr (CudaIdx a, CudaIdx b)
            | _ \<Rightarrow> Inl invalid_device))"
| "VAE__configure_device cuda_is_available (GpuInt k) =
     (if \<not> cuda_is_available then Inl not_available
      else Inr (CudaIdx k, CudaIdx k))"
| "VAE__configure_device cuda_is_available GpuOther =
     (if \<not> cuda_is_available then Inl not_available else Inl invalid_device)"

subsection \<open>Tensors and the loss functions\<close>

type_synonym tensor = "real list"

definition torch_mean :: "tensor \<Rightarrow> real" where
  "torch_mean xs = sum_list xs / real (length xs)"

text \<open>
  \<^verbatim>\<open>torch.mean\<close> of an empty tensor is NaN; here it is \<open>0\<close> (division by zero in HOL), so
  every statement about a mean is made for a non-empty tensor.

  Modelled from the spec: \<^verbatim>\<open>torch.nn.functional.binary_cross_entropy_with_logits\<close> is
  the library's function, not the repository's. It is the binary cross-entropy computed
  on pre-activation logits in the numerically stabilised form, without an explicit
  sigmoid, and averaged (\<^verbatim>\<open>reduction="mean"\<close>).
\<close>

definition binary_cross_entropy_with_logits :: "tensor \<Rightarrow> tensor \<Rightarrow> real" where
  "binary_cross_entropy_with_logits logits target =
     torch_mean (map2 (\<lambda>l t. max l 0 - l * t + ln (1 + exp (- \<bar>l\<bar>))) logits target)"

text \<open>The closed-form KL term, line 101: \<^verbatim>\<open>-0.5 * torch.mean(1 + logvar - mu.pow(2) - logvar.exp())\<close>.\<close>

definition KLD :: "tensor \<Rightarrow> tensor \<Rightarrow> real" where
  "KLD mu logvar = - 0.5 * torch_mean (map2 (\<lambda>lv m. 1 + lv - m ^ 2 - exp lv) logvar mu)"

type_synonym loss_function = "tensor \<Rightarrow> tensor \<Rightarrow> tensor \<Rightarrow> tensor \<Rightarrow> real \<times> real"

definition vae_logit_loss :: loss_function where
  "vae_logit_loss logit_recon_x x mu logvar =
     (let BCE = binary_cross_entropy_with_logits logit_recon_x x
      in (BCE, KLD mu logvar))"

subsection \<open>The controller object and the state it drives\<close>

text \<open>
  The attributes of \<^verbatim>\<open>self\<close> that \<^verbatim>\<open>train\<close> reads and never assigns. \<open>model_id\<close> and
  \<open>optimizer_id\<close> are the identities of the objects bound to \<^verbatim>\<open>self.model\<close> and
  \<^verbatim>\<open>self.optimizer\<close>; \<open>ddp_module\<close> is \<open>Some i\<close> when \<^verbatim>\<open>self.model\<close> is a
  \<^verbatim>\<open>DistributedDataParallel\<close> wrapper around the module \<open>i\<close>. \<open>dist_initialized\<close> is
  \<^verbatim>\<open>dist.is_initialized()\<close>.
\<close>

record vae =
  device :: "device \<times> device"
  enable_amp :: bool
  lambda_rec :: real
  loss_fnc :: loss_function
  model_id :: nat
  ddp_module :: "nat option"
  optimizer_id :: nat
  dist_initialized :: bool
  comm_size :: int



text \<open>
  The contents of the torch objects the controller mutates: the encoder's and the
  decoder's parameters, the optimizer's state, the gradient scaler's scale factor and
  growth counter, the random generator (\<^verbatim>\<open>reparameterize\<close> draws from it) and the
  module's training flag. \<open>'sd\<close> is the type of a state dict.
\<close>

record ('sd, 'r) torch_state =
  encoder :: 'sd
  decoder :: 'sd
  optimizer :: 'sd
  scale :: real
  growth_tracker :: nat
  rng :: 'r
  training :: bool

text \<open>
  A checkpoint file as \<^verbatim>\<open>torch.load\<close> returns it: a dict from field names to state dicts
  and integers.
\<close>

datatype 'sd cp_item = StateDict 'sd | IntItem int

type_synonym 'sd checkpoint = "(string \<times> 'sd cp_item) list"

text \<open>
  The library behind the controller, as parameters: reading a checkpoint file, as the
  files are when \<^verbatim>\<open>train\<close> is called (\<open>None\<close>: \<^verbatim>\<open>torch.load\<close> raises; the one
  call is made before any hook runs), \<^verbatim>\<open>load_state_dict\<close> of a module and of
  the optimizer (\<open>None\<close>: it raises), the two networks (given the training flag, the
  parameters and the generator), \<^verbatim>\<open>torch.randn_like\<close>, the gradients \<open>'g\<close> that
  \<^verbatim>\<open>backward\<close> leaves for a batch when the loss is multiplied by a factor, their
  unscaling and finiteness test, and \<^verbatim>\<open>optimizer.step()\<close>.
\<close>

record ('sd, 'r, 'g) backend =
  torch_load :: "string \<Rightarrow> 'sd checkpoint option"
  load_state_dict :: "'sd \<Rightarrow> 'sd \<Rightarrow> 'sd option"
  optimizer_load_state_dict :: "'sd \<Rightarrow> 'sd \<Rightarrow> 'sd option"
  encoder_net :: "bool \<Rightarrow> 'sd \<Rightarrow> 'r \<Rightarrow> tensor \<Rightarrow> (tensor \<times> tensor) \<times> 'r"
  decoder_net :: "bool \<Rightarrow> 'sd \<Rightarrow> 'r \<Rightarrow> tensor \<Rightarrow> tensor \<times> 'r"
  randn_like :: "'r \<Rightarrow> tensor \<Rightarrow> tensor \<times> 'r"
  autograd :: "vae \<Rightarrow> ('sd, 'r) torch_state \<Rightarrow> tensor \<Rightarrow> real \<Rightarrow> 'g"
  unscale :: "real \<Rightarrow> 'g \<Rightarrow> 'g"
  grads_finite :: "'g \<Rightarrow> bool"
  optimizer_step :: "'g \<Rightarrow> 'sd \<times> 'sd \<times> 'sd \<Rightarrow> 'sd \<times> 'sd \<times> 'sd"

subsection \<open>\<^verbatim>\<open>VAEModel.reparameterize\<close> and \<^verbatim>\<open>VAEModel.forward\<close>\<close>

definition reparameterize ::
  "('sd, 'r, 'g) backend \<Rightarrow> 'r \<Rightarrow> tensor \<Rightarrow> tensor \<Rightarrow> tensor \<times> 'r" where
  "reparameterize b r mu logvar =
     (let std = map (\<lambda>lv. exp (0.5 * lv)) logvar;
          (eps, r') = randn_like b r std
      in (map2 (+) mu (map2 (*) eps std), r'))"

definition VAEModel_forward ::
  "('sd, 'r, 'g) backend \<Rightarrow> ('sd, 'r) torch_state \<Rightarrow> tensor
     \<Rightarrow> (tensor \<times> tensor \<times> tensor \<times> tensor) \<times> 'r" where
  "VAEModel_forward b ts x =
     (let ((mu, logvar), r1) = encoder_net b (training ts) (encoder ts) (rng ts) x;
          (z, r2) = reparameterize b r1 mu logvar;
          (x', r3) = decoder_net b (training ts) (decoder ts) r2 z
      in ((x', z, mu, logvar), r3))"

subsection \<open>The gradient scaler\<close>

text \<open>
  Modelled from the spec: \<^verbatim>\<open>torch.cuda.amp.GradScaler\<close> is the library's class, not the
  repository's. Section 4.3 of the specification gives its protocol: a scale factor is
  kept; the loss is multiplied by it before the backward pass; the gradients are unscaled
  before the optimizer step and tested for non-finite values; if one is found the
  optimizer step is skipped and the scale factor reduced, otherwise the step is taken and
  the scale factor grows periodically. Disabled, it is a plain step. The constants are
  the library's defaults, which the constructor call of line 219 leaves in place.
\<close>

definition init_scale :: real where "init_scale = 65536"
definition growth_factor :: real where "growth_factor = 2"
definition backoff_factor :: real where "backoff_factor = 1 / 2"
definition growth_interval :: nat where "growth_interval = 2000"

definition GradScaler_scale :: "bool \<Rightarrow> ('sd, 'r) torch_state \<Rightarrow> real" where
  "GradScaler_scale enabled ts = (if enabled then scale ts else 1)"

definition take_optimizer_step ::
  "('sd, 'r, 'g) backend \<Rightarrow> 'g \<Rightarrow> ('sd, 'r) torch_state \<Rightarrow> ('sd, 'r) torch_state" where
  "take_optimizer_step b g ts =
     (case optimizer_step b g (encoder ts, decoder ts, optimizer ts) of
        (e, d, opt) \<Rightarrow> ts\<lparr>encoder := e, decoder := d, optimizer := opt\<rparr>)"

definition GradScaler_step ::
  "('sd, 'r, 'g) backend \<Rightarrow> bool \<Rightarrow> 'g \<Rightarrow> ('sd, 'r) torch_state
     \<Rightarrow> ('sd, 'r) torch_state \<times> bool" where
  "GradScaler_step b enabled grads ts =
     (if \<not> enabled then (take_optimizer_step b grads ts, False)
      else (let g = unscale b (scale ts) grads;
                found_inf = (\<not> grads_finite b g)
            in (if found_inf then ts else take_optimizer_step b g ts, found_inf)))"

definition GradScaler_update ::
  "bool \<Rightarrow> bool \<Rightarrow> ('sd, 'r) torch_state \<Rightarrow> ('sd, 'r) torch_state" where
  "GradScaler_update enabled found_inf ts =
     (if \<not> enabled then ts
      else if found_inf then ts\<lparr>scale := scale ts * backoff_factor, growth_tracker := 0\<rparr>
      else if growth_tracker ts + 1 = growth_interval
        then ts\<lparr>scale := scale ts * growth_factor, growth_tracker := 0\<rparr>
      else ts\<lparr>growth_tracker := growth_tracker ts + 1\<rparr>)"

subsection \<open>One optimisation step and one evaluation step\<close>

text \<open>
  Lines 361 to 374 of \<^verbatim>\<open>_train\<close>: the forward pass, the loss, \<^verbatim>\<open>zero_grad\<close>, the
  backward pass of the scaled loss, the scaler's step and update. The result is the new
  state with \<^verbatim>\<open>loss.item()\<close>, \<^verbatim>\<open>loss_rec.item()\<close> and \<^verbatim>\<open>loss_kld.item()\<close>.
\<close>

definition train_step ::
  "('sd, 'r, 'g) backend \<Rightarrow> vae \<Rightarrow> tensor \<Rightarrow> ('sd, 'r) torch_state
     \<Rightarrow> ('sd, 'r) torch_state \<times> real \<times> real \<times> real" where
  "train_step b v x ts =
     (case VAEModel_forward b ts x of
        ((logit_recon_batch, codes, mu, logvar), r) \<Rightarrow>
          (case loss_fnc v logit_recon_batch x mu logvar of
             (loss_rec, loss_kld) \<Rightarrow>
               (let loss = lambda_rec v * loss_rec + loss_kld;
                    grads = autograd b v ts x (GradScaler_scale (enable_amp v) ts);
                    (ts1, found_inf) = GradScaler_step b (enable_amp v) grads (ts\<lparr>rng := r\<rparr>);
                    ts2 = GradScaler_update (enable_amp v) found_inf ts1
                in (ts2, loss, loss_rec, loss_kld))))"

text \<open>
  Lines 431 to 438 of \<^verbatim>\<open>_validate\<close>: the forward pass and the loss under
  \<^verbatim>\<open>torch.no_grad()\<close>. The result is the new state, the batch's total loss and \<^verbatim>\<open>mu\<close>.
\<close>

definition eval_step ::
  "('sd, 'r, 'g) backend \<Rightarrow> vae \<Rightarrow> tensor \<Rightarrow> ('sd, 'r) torch_state
     \<Rightarrow> ('sd, 'r) torch_state \<times> real \<times> tensor" where
  "eval_step b v x ts =
     (case VAEModel_forward b ts x of
        ((logit_recon_batch, codes, mu, logvar), r) \<Rightarrow>
          (case loss_fnc v logit_recon_batch x mu logvar of
             (valid_loss_rec, valid_loss_kld) \<Rightarrow>
               (ts\<lparr>rng := r\<rparr>, lambda_rec v * valid_loss_rec + valid_loss_kld, mu)))"

subsection \<open>The training log, the callbacks and the trace of a run\<close>

text \<open>
  A value stored in \<^verbatim>\<open>logs\<close>: a reference to an object (by its identity), an integer, a
  float or a list. \<^verbatim>\<open>logs\<close> is one \<^verbatim>\<open>dict\<close>, created by \<^verbatim>\<open>train\<close> and passed by reference
  to every hook and to \<^verbatim>\<open>_train\<close> and \<^verbatim>\<open>_validate\<close>.
\<close>

datatype lval = ObjRef nat | IntV int | FloatV real | ListV "lval list"

text \<open>
  What a hook can reach: the torch objects (through \<^verbatim>\<open>logs["model"]\<close> and
  \<^verbatim>\<open>logs["optimizer"]\<close>), \<^verbatim>\<open>logs\<close>, and the world \<open>'w\<close> (the callback objects' own
  attributes, the files they write).
\<close>

record ('sd, 'r, 'w) machine =
  torch :: "('sd, 'r) torch_state"
  logs :: "(string \<times> lval) list"
  world :: 'w

text \<open>
  A callback has the nine hooks of \<^verbatim>\<open>molecules.utils.callback.Callback\<close>, with the
  arguments the controller passes. A hook returns the machine it leaves, or raises.
\<close>

record ('m, 'x) callback =
  on_train_begin :: "'m \<Rightarrow> 'x + 'm"
  on_epoch_begin :: "int \<Rightarrow> 'm \<Rightarrow> 'x + 'm"
  on_batch_begin :: "nat \<Rightarrow> int \<Rightarrow> 'm \<Rightarrow> 'x + 'm"
  on_batch_end :: "nat \<Rightarrow> int \<Rightarrow> 'm \<Rightarrow> 'x + 'm"
  on_epoch_end :: "int \<Rightarrow> 'm \<Rightarrow> 'x + 'm"
  on_validation_begin :: "int \<Rightarrow> 'm \<Rightarrow> 'x + 'm"
  on_validation_batch_end :: "int \<Rightarrow> nat \<Rightarrow> tensor \<Rightarrow> tensor \<Rightarrow> tensor \<Rightarrow> 'm \<Rightarrow> 'x + 'm"
  on_validation_end :: "int \<Rightarrow> 'm \<Rightarrow> 'x + 'm"
  on_train_end :: "'m \<Rightarrow> 'x + 'm"

text \<open>A lifecycle point: the hook's name with the arguments of the call (\<^verbatim>\<open>logs\<close> apart).\<close>

datatype hook_call =
    On_train_begin
  | On_epoch_begin int
  | On_batch_begin nat int
  | On_batch_end nat int
  | On_epoch_end int
  | On_validation_begin int
  | On_validation_batch_end int nat tensor tensor tensor
  | On_validation_end int
  | On_train_end

fun invoke :: "('m, 'x) callback \<Rightarrow> hook_call \<Rightarrow> 'm \<Rightarrow> 'x + 'm" where
  "invoke c On_train_begin = on_train_begin c"
| "invoke c (On_epoch_begin epoch) = on_epoch_begin c epoch"
| "invoke c (On_batch_begin batch_idx epoch) = on_batch_begin c batch_idx epoch"
| "invoke c (On_batch_end batch_idx epoch) = on_batch_end c batch_idx epoch"
| "invoke c (On_epoch_end epoch) = on_epoch_end c epoch"
| "invoke c (On_validation_begin epoch) = on_validation_begin c epoch"
| "invoke c (On_validation_batch_end epoch batch_idx rmsd fnc mu) =
     on_validation_batch_end c epoch batch_idx rmsd fnc mu"
| "invoke c (On_validation_end epoch) = on_validation_end c epoch"
| "invoke c On_train_end = on_train_end c"

text \<open>
  The trace of a run lists what the controller did, in order: \<open>Fired i h\<close>, the call of
  hook \<open>h\<close> of the \<open>i\<close>-th callback of the list; \<open>Wrote k x\<close>, the assignment
  \<^verbatim>\<open>logs[k] = x\<close>; \<open>Pass p epoch\<close>, the call of \<^verbatim>\<open>_train\<close> or \<^verbatim>\<open>_validate\<close> for an epoch;
  \<open>Batch_loss p l\<close>, the total loss \<open>l\<close> of a batch as \<^verbatim>\<open>.item()\<close> read it. The trace is
  an observation of the run, not a variable of the source.
\<close>

datatype pass_kind = Training | Validation

datatype event =
    Fired nat hook_call
  | Wrote string lval
  | Pass pass_kind int
  | Batch_loss pass_kind real

type_synonym ('x, 'a) run = "event list \<times> ('x raised + 'a)"

text \<open>Sequencing: the second statement runs on what the first left, unless it raised.\<close>

definition and_then :: "('x, 'a) run \<Rightarrow> ('a \<Rightarrow> ('x, 'b) run) \<Rightarrow> ('x, 'b) run" where
  "and_then r f =
     (case r of
        (es, Inl e) \<Rightarrow> (es, Inl e)
      | (es, Inr a) \<Rightarrow> (case f a of (es', r') \<Rightarrow> (es @ es', r')))"

definition raise_error :: "py_error \<Rightarrow> ('x, 'a) run" where
  "raise_error e = ([], Inl (Controller e))"

text \<open>An exception of a statement of the controller is not caught: it ends the run.\<close>

definition uncaught :: "py_error + 'a \<Rightarrow> ('x, 'a) run" where
  "uncaught r = (case r of Inl e \<Rightarrow> raise_error e | Inr a \<Rightarrow> ([], Inr a))"

text \<open>A \<^verbatim>\<open>for\<close> loop over a list, with the variables it updates as the state \<open>s\<close>.\<close>

fun for_each :: "('a \<Rightarrow> 's \<Rightarrow> ('x, 's) run) \<Rightarrow> 'a list \<Rightarrow> 's \<Rightarrow> ('x, 's) run" where
  "for_each body [] s = ([], Inr s)"
| "for_each body (a # as) s = and_then (body a s) (for_each body as)"

text \<open>
  \<^verbatim>\<open>for callback in callbacks: callback.hook(..., logs)\<close>: every callback receives the
  machine, the one \<^verbatim>\<open>logs\<close> in it, as the callback before it left it.
\<close>

fun fire_from ::
  "nat \<Rightarrow> ('m, 'x) callback list \<Rightarrow> hook_call \<Rightarrow> 'm \<Rightarrow> ('x, 'm) run" where
  "fire_from i [] h m = ([], Inr m)"
| "fire_from i (c # cs) h m =
     (case invoke c h m of
        Inl x \<Rightarrow> ([Fired i h], Inl (Callback x))
      | Inr m' \<Rightarrow> and_then ([Fired i h], Inr m') (fire_from (Suc i) cs h))"

definition fire :: "('m, 'x) callback list \<Rightarrow> hook_call \<Rightarrow> 'm \<Rightarrow> ('x, 'm) run" where
  "fire callbacks h m = fire_from 0 callbacks h m"

text \<open>\<^verbatim>\<open>logs[k] = x\<close>.\<close>

definition setitem ::
  "string \<Rightarrow> lval \<Rightarrow> ('sd, 'r, 'w) machine \<Rightarrow> ('x, ('sd, 'r, 'w) machine) run" where
  "setitem k x m = ([Wrote k x], Inr (m\<lparr>logs := AList.update k x (logs m)\<rparr>))"

subsection \<open>\<^verbatim>\<open>VAE._train\<close>: one epoch of training\<close>

text \<open>
  A batch source is the list of the tokens \<^verbatim>\<open>(data, rmsd, fnc, index)\<close> it yields, and its
  \<^verbatim>\<open>len\<close> is the length of the list. The loop's state is \<^verbatim>\<open>logs\<close> and the objects (the
  machine), the running sum \<^verbatim>\<open>train_loss\<close>, and the loop variable \<^verbatim>\<open>batch_idx\<close>, which is
  unbound (\<open>None\<close>) until the first iteration binds it.
\<close>

type_synonym token = "tensor \<times> tensor \<times> tensor \<times> int list"

fun train_batch ::
  "('sd, 'r, 'g) backend \<Rightarrow> vae \<Rightarrow> nat \<Rightarrow> int
     \<Rightarrow> (('sd, 'r, 'w) machine, 'x) callback list
     \<Rightarrow> nat \<times> token \<Rightarrow> ('sd, 'r, 'w) machine \<times> real \<times> nat option
     \<Rightarrow> ('x, ('sd, 'r, 'w) machine \<times> real \<times> nat option) run" where
  "train_batch b v len_train_loader epoch callbacks (batch_idx, (x, rmsd, fnc, index))
       (m, train_loss, unused) =
     and_then (fire callbacks (On_batch_begin batch_idx epoch) m) (\<lambda>m.
       case train_step b v x (torch m) of
         (ts, loss, loss_rec, loss_kld) \<Rightarrow>
     and_then ([Batch_loss Training loss], Inr (m\<lparr>torch := ts\<rparr>)) (\<lambda>m.
     and_then
       (if callbacks \<noteq> [] then
          and_then (setitem ''train_loss'' (FloatV loss) m) (\<lambda>m.
          and_then (setitem ''train_loss_rec'' (FloatV loss_rec) m) (\<lambda>m.
          and_then (setitem ''train_loss_kld'' (FloatV loss_kld) m)
            (setitem ''global_step''
               (IntV ((epoch - 1) * int len_train_loader + int batch_idx)))))
        else ([], Inr m)) (\<lambda>m.
     and_then (fire callbacks (On_batch_end batch_idx epoch) m) (\<lambda>m.
       ([], Inr (m, train_loss + loss, Some batch_idx))))))"

definition VAE__train ::
  "('sd, 'r, 'g) backend \<Rightarrow> vae \<Rightarrow> token list \<Rightarrow> int
     \<Rightarrow> (('sd, 'r, 'w) machine, 'x) callback list
     \<Rightarrow> ('sd, 'r, 'w) machine \<Rightarrow> ('x, ('sd, 'r, 'w) machine) run" where
  "VAE__train b v train_loader epoch callbacks m =
     and_then ([Pass Training epoch], Inr (m\<lparr>torch := (torch m)\<lparr>training := True\<rparr>\<rparr>)) (\<lambda>m.
     and_then
       (for_each (train_batch b v (length train_loader) epoch callbacks)
          (enumerate 0 train_loader) (m, 0, None)) (\<lambda>(m, train_loss, batch_idx).
       case batch_idx of
         None \<Rightarrow> raise_error (UnboundLocalError ''batch_idx'')
       | Some i \<Rightarrow>
           (let train_loss_ave = train_loss / real (i + 1)
            in if callbacks \<noteq> []
               then setitem ''train_loss_average'' (FloatV train_loss_ave) m
               else ([], Inr m))))"

subsection \<open>\<^verbatim>\<open>VAE._validate\<close>: one pass over the validation set\<close>

fun validate_batch ::
  "('sd, 'r, 'g) backend \<Rightarrow> vae \<Rightarrow> int
     \<Rightarrow> (('sd, 'r, 'w) machine, 'x) callback list
     \<Rightarrow> nat \<times> token \<Rightarrow> ('sd, 'r, 'w) machine \<times> real \<times> nat option
     \<Rightarrow> ('x, ('sd, 'r, 'w) machine \<times> real \<times> nat option) run" where
  "validate_batch b v epoch callbacks (batch_idx, (x, rmsd, fnc, index))
       (m, valid_loss, unused) =
     (case eval_step b v x (torch m) of
        (ts, loss, mu) \<Rightarrow>
     and_then ([Batch_loss Validation loss], Inr (m\<lparr>torch := ts\<rparr>)) (\<lambda>m.
     and_then (fire callbacks (On_validation_batch_end epoch batch_idx rmsd fnc mu) m) (\<lambda>m.
       ([], Inr (m, valid_loss + loss, Some batch_idx)))))"

definition VAE__validate ::
  "('sd, 'r, 'g) backend \<Rightarrow> vae \<Rightarrow> token list \<Rightarrow> int
     \<Rightarrow> (('sd, 'r, 'w) machine, 'x) callback list
     \<Rightarrow> ('sd, 'r, 'w) machine \<Rightarrow> ('x, ('sd, 'r, 'w) machine) run" where
  "VAE__validate b v valid_loader epoch callbacks m =
     and_then ([Pass Validation epoch], Inr (m\<lparr>torch := (torch m)\<lparr>training := False\<rparr>\<rparr>)) (\<lambda>m.
     and_then (fire callbacks (On_validation_begin epoch) m) (\<lambda>m.
     and_then
       (for_each (validate_batch b v epoch callbacks) (enumerate 0 valid_loader) (m, 0, None))
       (\<lambda>(m, valid_loss, batch_idx).
       case batch_idx of
         None \<Rightarrow> raise_error (UnboundLocalError ''batch_idx'')
       | Some i \<Rightarrow>
           (let valid_loss = valid_loss / real (i + 1)
            in and_then
                 (if callbacks \<noteq> [] then setitem ''valid_loss'' (FloatV valid_loss) m
                  else ([], Inr m))
                 (fire callbacks (On_validation_end epoch))))))"

subsection \<open>\<^verbatim>\<open>VAE._load_checkpoint\<close>\<close>

definition getitem :: "'sd checkpoint \<Rightarrow> string \<Rightarrow> py_error + 'sd cp_item" where
  "getitem cp k = (case map_of cp k of None \<Rightarrow> Inl (KeyError k) | Some x \<Rightarrow> Inr x)"

text \<open>
  \<^verbatim>\<open>obj.load_state_dict(item)\<close>: the object's own method, given the stored item; an
  integer is not a state dict, and the library may refuse a state dict.
\<close>

definition restore :: "('sd \<Rightarrow> 'sd option) \<Rightarrow> 'sd cp_item \<Rightarrow> py_error + 'sd" where
  "restore load item =
     (case item of
        IntItem n \<Rightarrow> Inl TypeError
      | StateDict sd \<Rightarrow> (case load sd of None \<Rightarrow> Inl TorchError | Some s \<Rightarrow> Inr s))"

definition or_raise :: "'e + 'a \<Rightarrow> ('a \<Rightarrow> 'e + 'b) \<Rightarrow> 'e + 'b" where
  "or_raise r f = (case r of Inl e \<Rightarrow> Inl e | Inr a \<Rightarrow> f a)"

definition VAE__load_checkpoint ::
  "('sd, 'r, 'g) backend \<Rightarrow> string \<Rightarrow> ('sd, 'r, 'w) machine
     \<Rightarrow> py_error + ('sd, 'r, 'w) machine \<times> 'sd cp_item" where
  "VAE__load_checkpoint b path m =
     (case torch_load b path of
        None \<Rightarrow> Inl TorchError
      | Some cp \<Rightarrow>
          or_raise (getitem cp ''encoder_state_dict'') (\<lambda>item.
          or_raise (restore (load_state_dict b (encoder (torch m))) item) (\<lambda>enc.
          or_raise (getitem cp ''decoder_state_dict'') (\<lambda>item.
          or_raise (restore (load_state_dict b (decoder (torch m))) item) (\<lambda>dec.
          or_raise (getitem cp ''optimizer_state_dict'') (\<lambda>item.
          or_raise (restore (optimizer_load_state_dict b (optimizer (torch m))) item) (\<lambda>opt.
          or_raise (getitem cp ''epoch'') (\<lambda>epoch.
            Inr (m\<lparr>torch := (torch m)\<lparr>encoder := enc, decoder := dec, optimizer := opt\<rparr>\<rparr>,
                 epoch)))))))))"

subsection \<open>\<^verbatim>\<open>VAE.train\<close>\<close>

text \<open>
  Lines 293 to 301. \<open>handle\<close> is the module under a \<^verbatim>\<open>DistributedDataParallel\<close> wrapper,
  or the model itself.
\<close>

definition handle :: "vae \<Rightarrow> nat" where
  "handle v = (case ddp_module v of Some i \<Rightarrow> i | None \<Rightarrow> model_id v)"

definition build_logs ::
  "vae \<Rightarrow> (('sd, 'r, 'w) machine, 'x) callback list \<Rightarrow> ('sd, 'r, 'w) machine
     \<Rightarrow> ('x, ('sd, 'r, 'w) machine) run" where
  "build_logs v callbacks m =
     (if callbacks \<noteq> [] then
        and_then (setitem ''model'' (ObjRef (handle v)) (m\<lparr>logs := []\<rparr>)) (\<lambda>m.
        and_then (setitem ''optimizer'' (ObjRef (optimizer_id v)) m) (\<lambda>m.
          if dist_initialized v then setitem ''comm_size'' (IntV (comm_size v)) m
          else ([], Inr m)))
      else ([], Inr (m\<lparr>logs := []\<rparr>)))"

text \<open>
  Lines 303 to 306. \<^verbatim>\<open>if checkpoint:\<close> is the truth value of a string or \<^verbatim>\<open>None\<close>: a
  non-empty path. \<^verbatim>\<open>start_epoch += ...\<close> adds what \<^verbatim>\<open>_load_checkpoint\<close> returned.
\<close>

definition start_epoch_of ::
  "('sd, 'r, 'g) backend \<Rightarrow> string option \<Rightarrow> ('sd, 'r, 'w) machine
     \<Rightarrow> py_error + ('sd, 'r, 'w) machine \<times> int" where
  "start_epoch_of b checkpoint m =
     (case checkpoint of
        None \<Rightarrow> Inr (m, 1)
      | Some path \<Rightarrow>
          if path = [] then Inr (m, 1)
          else or_raise (VAE__load_checkpoint b path m) (\<lambda>(m', item).
                 case item of
                   IntItem epoch \<Rightarrow> Inr (m', 1 + epoch)
                 | StateDict sd \<Rightarrow> Inl TypeError))"

definition run_epoch ::
  "('sd, 'r, 'g) backend \<Rightarrow> vae \<Rightarrow> token list \<Rightarrow> token list
     \<Rightarrow> (('sd, 'r, 'w) machine, 'x) callback list \<Rightarrow> int
     \<Rightarrow> ('sd, 'r, 'w) machine \<Rightarrow> ('x, ('sd, 'r, 'w) machine) run" where
  "run_epoch b v train_loader valid_loader callbacks epoch m =
     and_then (fire callbacks (On_epoch_begin epoch) m) (\<lambda>m.
     and_then (VAE__train b v train_loader epoch callbacks m) (\<lambda>m.
     and_then (VAE__validate b v valid_loader epoch callbacks m)
       (fire callbacks (On_epoch_end epoch))))"

definition VAE_train ::
  "('sd, 'r, 'g) backend \<Rightarrow> vae \<Rightarrow> token list \<Rightarrow> token list \<Rightarrow> int \<Rightarrow> string option
     \<Rightarrow> (('sd, 'r, 'w) machine, 'x) callback list
     \<Rightarrow> ('sd, 'r, 'w) machine \<Rightarrow> ('x, ('sd, 'r, 'w) machine) run" where
  "VAE_train b v train_loader valid_loader epochs checkpoint callbacks m =
     and_then (build_logs v callbacks m) (\<lambda>m.
     and_then (uncaught (start_epoch_of b checkpoint m)) (\<lambda>(m, start_epoch).
     and_then (fire callbacks On_train_begin m) (\<lambda>m.
     and_then
       (for_each (run_epoch b v train_loader valid_loader callbacks) [start_epoch..epochs] m)
       (fire callbacks On_train_end))))"

subsection \<open>Observations of a trace\<close>

text \<open>
  The values assigned to \<^verbatim>\<open>logs[k]\<close>, the epochs for which a pass was run, the batch
  losses of a kind of pass, and the hook calls with the index of the callback, each in
  the order of the run.
\<close>

definition written :: "string \<Rightarrow> event list \<Rightarrow> lval list" where
  "written k evs =
     concat (map (\<lambda>e. case e of Wrote k' x \<Rightarrow> if k' = k then [x] else [] | _ \<Rightarrow> []) evs)"

definition epochs_run :: "pass_kind \<Rightarrow> event list \<Rightarrow> int list" where
  "epochs_run p evs =
     concat (map (\<lambda>e. case e of Pass q n \<Rightarrow> if q = p then [n] else [] | _ \<Rightarrow> []) evs)"

definition batch_losses :: "pass_kind \<Rightarrow> event list \<Rightarrow> real list" where
  "batch_losses p evs =
     concat (map (\<lambda>e. case e of Batch_loss q l \<Rightarrow> if q = p then [l] else [] | _ \<Rightarrow> []) evs)"

definition fired :: "event list \<Rightarrow> (nat \<times> hook_call) list" where
  "fired evs = concat (map (\<lambda>e. case e of Fired i h \<Rightarrow> [(i, h)] | _ \<Rightarrow> []) evs)"

text \<open>
  One round of a lifecycle point over \<open>n\<close> callbacks: the callbacks \<open>0, \<dots>, n - 1\<close> in
  list order, each called with the same hook and arguments.
\<close>

definition round_of :: "nat \<Rightarrow> hook_call \<Rightarrow> (nat \<times> hook_call) list" where
  "round_of n h = map (\<lambda>i. (i, h)) [0..<n]"

definition in_rounds :: "nat \<Rightarrow> event list \<Rightarrow> bool" where
  "in_rounds n evs = (\<exists>hs. fired evs = concat (map (round_of n) hs))"

text \<open>
  The specification's reading of a lifecycle point: the hooks run in list order and each
  receives what the one before it left (there is one \<^verbatim>\<open>logs\<close>); the first to raise
  ends the round.
\<close>

definition hooks_in_order :: "('m, 'x) callback list \<Rightarrow> hook_call \<Rightarrow> 'm \<Rightarrow> 'x + 'm" where
  "hooks_in_order callbacks h m =
     foldl (\<lambda>r c. case r of Inl x \<Rightarrow> Inl x | Inr m' \<Rightarrow> invoke c h m') (Inr m) callbacks"

subsection \<open>Callbacks used in the statements\<close>

text \<open>
  Modelled from the spec: the base class \<^verbatim>\<open>molecules.utils.callback.Callback\<close> is not
  among the sources; every hook has a no-op default.
\<close>

definition noop_callback :: "('m, 'x) callback" where
  "noop_callback =
     \<lparr>on_train_begin = Inr, on_epoch_begin = (\<lambda>epoch. Inr),
      on_batch_begin = (\<lambda>batch_idx epoch. Inr), on_batch_end = (\<lambda>batch_idx epoch. Inr),
      on_epoch_end = (\<lambda>epoch. Inr), on_validation_begin = (\<lambda>epoch. Inr),
      on_validation_batch_end = (\<lambda>epoch batch_idx rmsd fnc mu. Inr),
      on_validation_end = (\<lambda>epoch. Inr), on_train_end = Inr\<rparr>"

text \<open>
  The callbacks \<open>A\<close> and \<open>B\<close> of the ordering property: \<open>writer k f\<close> assigns
  \<^verbatim>\<open>logs[k] = f(epoch)\<close> in \<^verbatim>\<open>on_epoch_end\<close>; \<open>reader k\<close> appends what it finds under \<open>k\<close>
  (\<open>None\<close> when the key is absent) to its own record, which is the world.
\<close>

definition writer ::
  "string \<Rightarrow> (int \<Rightarrow> lval) \<Rightarrow> (('sd, 'r, 'w) machine, 'x) callback" where
  "writer k f =
     noop_callback\<lparr>on_epoch_end := (\<lambda>epoch m. Inr (m\<lparr>logs := AList.update k (f epoch) (logs m)\<rparr>))\<rparr>"

definition reader ::
  "string \<Rightarrow> (('sd, 'r, lval option list) machine, 'x) callback" where
  "reader k =
     noop_callback\<lparr>on_epoch_end := (\<lambda>epoch m. Inr (m\<lparr>world := world m @ [map_of (logs m) k]\<rparr>))\<rparr>"

text \<open>
  Modelled from the spec: the logging callback
  (\<^verbatim>\<open>molecules.ml.callbacks.LossCallback\<close> is not among the sources). It keeps, apart from
  \<^verbatim>\<open>logs\<close>, one sequence of per-epoch values for each metric: \<^verbatim>\<open>on_train_begin\<close> empties
  them and \<^verbatim>\<open>on_epoch_end\<close> appends \<^verbatim>\<open>logs["train_loss_average"]\<close> and
  \<^verbatim>\<open>logs["valid_loss"]\<close>.
\<close>

definition loss_callback ::
  "(('sd, 'r, lval option list \<times> lval option list) machine, 'x) callback" where
  "loss_callback =
     noop_callback
       \<lparr>on_train_begin := (\<lambda>m. Inr (m\<lparr>world := ([], [])\<rparr>)),
        on_epoch_end := (\<lambda>epoch m. Inr (m\<lparr>world :=
           (fst (world m) @ [map_of (logs m) ''train_loss_average''],
            snd (world m) @ [map_of (logs m) ''valid_loss''])\<rparr>))\<rparr>"

text \<open>
  The hooks that run inside an epoch, between \<^verbatim>\<open>on_epoch_begin\<close> and the last
  \<^verbatim>\<open>on_validation_end\<close>.
\<close>

fun within_epoch :: "hook_call \<Rightarrow> bool" where
  "within_epoch On_train_begin = False"
| "within_epoch (On_epoch_end epoch) = False"
| "within_epoch On_train_end = False"
| "within_epoch h = True"

definition quiet_within_epoch :: "('m, 'x) callback list \<Rightarrow> bool" where
  "quiet_within_epoch callbacks =
     (\<forall>c \<in> set callbacks. \<forall>h m. within_epoch h \<longrightarrow> invoke c h m = Inr m)"

text \<open>
  An observer is a callback none of whose hooks raises or changes the torch objects: it
  may read them, and write \<^verbatim>\<open>logs\<close> and the world.
\<close>

definition observer :: "(('sd, 'r, 'w) machine, 'x) callback \<Rightarrow> bool" where
  "observer c = (\<forall>h m. \<exists>m'. invoke c h m = Inr m' \<and> torch m' = torch m)"

text \<open>The events that do not mention a callback or \<^verbatim>\<open>logs\<close>: the passes and the batch losses.\<close>

definition core :: "event list \<Rightarrow> event list" where
  "core evs =
     filter (\<lambda>e. case e of Pass p n \<Rightarrow> True | Batch_loss p l \<Rightarrow> True | _ \<Rightarrow> False) evs"

text \<open>
  Two runs agree up to callbacks: the same passes and batch losses, the same exception
  or results related by \<open>R\<close>.
\<close>

definition agree :: "('a \<Rightarrow> 'b \<Rightarrow> bool) \<Rightarrow> ('x, 'a) run \<Rightarrow> ('x, 'b) run \<Rightarrow> bool" where
  "agree R r r0 =
     (core (fst r) = core (fst r0) \<and>
      (case snd r of
         Inl e \<Rightarrow> snd r0 = Inl e
       | Inr a \<Rightarrow> (case snd r0 of Inl e0 \<Rightarrow> False | Inr a0 \<Rightarrow> R a a0)))"

subsection \<open>A small concrete instance\<close>

text \<open>
  A backend on which the definitions can be run: the networks return the one-element
  tensors \<open>[0]\<close>, the noise is zero, no checkpoint file exists, and the gradients of a
  batch are finite exactly when the first element of its data is not negative, so the
  batch \<open>[-1]\<close> forces a non-finite gradient.
\<close>

definition toy_backend :: "(unit, unit, bool) backend" where
  "toy_backend =
     \<lparr>torch_load = (\<lambda>path. None), load_state_dict = (\<lambda>obj sd. Some sd),
      optimizer_load_state_dict = (\<lambda>obj sd. Some sd),
      encoder_net = (\<lambda>flag p r x. (([0], [0]), r)),
      decoder_net = (\<lambda>flag p r z. ([0], r)),
      randn_like = (\<lambda>r t. (map (\<lambda>a. 0) t, r)),
      autograd = (\<lambda>v ts x factor. case x of [] \<Rightarrow> True | a # as \<Rightarrow> 0 \<le> a),
      unscale = (\<lambda>factor g. g), grads_finite = (\<lambda>g. g),
      optimizer_step = (\<lambda>g p. p)\<rparr>"

definition toy_state :: "(unit, unit) torch_state" where
  "toy_state = \<lparr>encoder = (), decoder = (), optimizer = (), scale = init_scale,
                growth_tracker = 0, rng = (), training = True\<rparr>"

definition toy_machine :: "'w \<Rightarrow> (unit, unit, 'w) machine" where
  "toy_machine w = \<lparr>torch = toy_state, logs = [], world = w\<rparr>"

definition default_vae :: vae where
  "default_vae = \<lparr>device = (Cpu, Cpu), enable_amp = False, lambda_rec = 1,
                   loss_fnc = vae_logit_loss, model_id = 0, ddp_module = None,
                   optimizer_id = 1, dist_initialized = False, comm_size = 1\<rparr>"




subsection \<open>Vocabulary of the statements\<close>

text \<open>The four fields of a checkpoint file (section 6 of the specification).\<close>

definition required_fields :: "string list" where
  "required_fields =
     [''encoder_state_dict'', ''decoder_state_dict'', ''optimizer_state_dict'', ''epoch'']"

text \<open>Callbacks none of whose hooks raises, whatever the hook and the machine.\<close>

definition never_raises :: "('m, 'x) callback list \<Rightarrow> bool" where
  "never_raises callbacks = (\<forall>c \<in> set callbacks. \<forall>h m. \<exists>m'. invoke c h m = Inr m')"

subsection \<open>Concrete batch sources, callbacks and checkpoint files\<close>

text \<open>
  A batch source of \<open>n\<close> equal batches, a callback with the default hooks only, a
  well-formed checkpoint file saved at an epoch, and the toy backend with one file on
  disk.
\<close>

definition toy_batch :: token where
  "toy_batch = ([0], [], [], [])"

definition toy_loader :: "nat \<Rightarrow> token list" where
  "toy_loader n = replicate n toy_batch"

definition quiet_callback :: "((unit, unit, unit) machine, unit) callback" where
  "quiet_callback = noop_callback"

definition toy_checkpoint :: "int \<Rightarrow> unit checkpoint" where
  "toy_checkpoint epoch =
     [(''encoder_state_dict'', StateDict ()), (''decoder_state_dict'', StateDict ()),
      (''optimizer_state_dict'', StateDict ()), (''epoch'', IntItem epoch)]"

definition backend_with_file :: "string \<Rightarrow> unit checkpoint \<Rightarrow> (unit, unit, bool) backend" where
  "backend_with_file path cp =
     toy_backend\<lparr>torch_load := (\<lambda>p. if p = path then Some cp else None)\<rparr>"

subsection \<open>Checkpoint files with a missing field\<close>

text \<open>
  The first of the four fields, in the order \<^verbatim>\<open>_load_checkpoint\<close> reads them, that a
  checkpoint file lacks; the condition that every state dict the file does hold is accepted
  by \<^verbatim>\<open>load_state_dict\<close>; and a file saved without its \<^verbatim>\<open>epoch\<close> field.
\<close>

definition first_missing :: "'sd checkpoint \<Rightarrow> string option" where
  "first_missing cp = find (\<lambda>k. map_of cp k = None) required_fields"

definition loads :: "('sd \<Rightarrow> 'sd option) \<Rightarrow> 'sd cp_item option \<Rightarrow> bool" where
  "loads load entry =
     (case entry of
        None \<Rightarrow> True
      | Some (IntItem n) \<Rightarrow> False
      | Some (StateDict sd) \<Rightarrow> load sd \<noteq> None)"

definition stored_items_load ::
  "('sd, 'r, 'g) backend \<Rightarrow> ('sd, 'r, 'w) machine \<Rightarrow> 'sd checkpoint \<Rightarrow> bool" where
  "stored_items_load b m cp =
     (loads (load_state_dict b (encoder (torch m))) (map_of cp ''encoder_state_dict'')
      \<and> loads (load_state_dict b (decoder (torch m))) (map_of cp ''decoder_state_dict'')
      \<and> loads (optimizer_load_state_dict b (optimizer (torch m)))
            (map_of cp ''optimizer_state_dict''))"

definition corrupt_checkpoint :: "unit checkpoint" where
  "corrupt_checkpoint =
     [(''encoder_state_dict'', StateDict ()), (''decoder_state_dict'', StateDict ()),
      (''optimizer_state_dict'', StateDict ())]"

section \<open>Properties\<close>

subsection \<open>Device resolution\<close>

lemma configure_device_absent_element:
  "None \<in> set xs \<Longrightarrow>
     VAE__configure_device av (GpuTuple xs) = VAE__configure_device av GpuNone"
  by simp

text \<open>
  Claim C5. Resolving \<^verbatim>\<open>None\<close> and resolving \<^verbatim>\<open>(None, None)\<close> give the same pair, both
  components the accelerator when one is available and the CPU otherwise; with an
  accelerator present an integer \<open>k\<close> gives \<open>(device k, device k)\<close> and a pair \<open>(a, b)\<close> of
  ids gives \<open>(device a, device b)\<close>; a pair with an absent element resolves as \<^verbatim>\<open>None\<close>
  does; and an explicit id or pair of ids with no accelerator present raises the
  \<^verbatim>\<open>ValueError\<close> of the configuration.
\<close>

theorem device_resolution:
  "VAE__configure_device av GpuNone = VAE__configure_device av (GpuTuple [None, None])
   \<and> VAE__configure_device av GpuNone = Inr (if av then (Cuda, Cuda) else (Cpu, Cpu))
   \<and> (av \<longrightarrow> VAE__configure_device av (GpuInt k) = Inr (CudaIdx k, CudaIdx k))
   \<and> (av \<longrightarrow> VAE__configure_device av (GpuTuple [Some a, Some b]) = Inr (CudaIdx a, CudaIdx b))
   \<and> VAE__configure_device av (GpuTuple [None, y]) = VAE__configure_device av GpuNone
   \<and> VAE__configure_device av (GpuTuple [x, None]) = VAE__configure_device av GpuNone
   \<and> (\<not> av \<longrightarrow> VAE__configure_device av (GpuInt k) = Inl not_available
              \<and> VAE__configure_device av (GpuTuple [Some a, Some b]) = Inl not_available)"
  by (simp add: default_device_def)

theorem device_resolution_witness:
  "VAE__configure_device True (GpuInt 3) = Inr (CudaIdx 3, CudaIdx 3)
   \<and> VAE__configure_device True (GpuTuple [Some 2, Some 5]) = Inr (CudaIdx 2, CudaIdx 5)
   \<and> VAE__configure_device False (GpuInt 3) = Inl not_available
   \<and> VAE__configure_device False (GpuTuple [Some 2, Some 5]) = Inl not_available
   \<and> VAE__configure_device False GpuNone = Inr (Cpu, Cpu)
   \<and> VAE__configure_device False (GpuTuple [None, Some 5]) = Inr (Cpu, Cpu)"
  using device_resolution [of True 3 2 5 "Some 5" None]
        device_resolution [of False 3 2 5 "Some 5" None]
  by (simp add: default_device_def)


subsection \<open>Sequencing, loops and rounds of hooks\<close>

lemma written_simps [simp]:
  "written k [] = []"
  "written k (es @ es') = written k es @ written k es'"
  "written k (Fired i h # es) = written k es"
  "written k (Wrote k' x # es) = (if k' = k then x # written k es else written k es)"
  "written k (Pass p n # es) = written k es"
  "written k (Batch_loss p l # es) = written k es"
  by (simp_all add: written_def)

lemma epochs_run_simps [simp]:
  "epochs_run p [] = []"
  "epochs_run p (es @ es') = epochs_run p es @ epochs_run p es'"
  "epochs_run p (Fired i h # es) = epochs_run p es"
  "epochs_run p (Wrote k' x # es) = epochs_run p es"
  "epochs_run p (Pass q n # es) = (if q = p then n # epochs_run p es else epochs_run p es)"
  "epochs_run p (Batch_loss q l # es) = epochs_run p es"
  by (simp_all add: epochs_run_def)

lemma batch_losses_simps [simp]:
  "batch_losses p [] = []"
  "batch_losses p (es @ es') = batch_losses p es @ batch_losses p es'"
  "batch_losses p (Fired i h # es) = batch_losses p es"
  "batch_losses p (Wrote k' x # es) = batch_losses p es"
  "batch_losses p (Pass q n # es) = batch_losses p es"
  "batch_losses p (Batch_loss q l # es) = (if q = p then l # batch_losses p es else batch_losses p es)"
  by (simp_all add: batch_losses_def)

lemma fired_simps [simp]:
  "fired [] = []"
  "fired (es @ es') = fired es @ fired es'"
  "fired (Fired i h # es) = (i, h) # fired es"
  "fired (Wrote k' x # es) = fired es"
  "fired (Pass q n # es) = fired es"
  "fired (Batch_loss q l # es) = fired es"
  by (simp_all add: fired_def)

lemma written_map_Fired [simp]: "written k (map (\<lambda>j. Fired j h) xs) = []"
  by (induction xs) auto

lemma epochs_run_map_Fired [simp]: "epochs_run p (map (\<lambda>j. Fired j h) xs) = []"
  by (induction xs) auto

lemma batch_losses_map_Fired [simp]: "batch_losses p (map (\<lambda>j. Fired j h) xs) = []"
  by (induction xs) auto

lemma and_then_Inl [simp]: "and_then (es, Inl e) f = (es, Inl e)"
  by (simp add: and_then_def)

lemma and_then_Nil [simp]: "and_then ([], Inr a) f = f a"
  by (simp add: and_then_def split: prod.splits)

lemma and_then_Inr: "and_then (es, Inr a) f = (es @ fst (f a), snd (f a))"
  by (simp add: and_then_def split: prod.splits)

lemma and_then_succeeds:
  "and_then r f = (evs, Inr c) \<longleftrightarrow>
     (\<exists>es a es'. r = (es, Inr a) \<and> f a = (es', Inr c) \<and> evs = es @ es')"
  by (cases r; cases "snd r") (auto simp: and_then_def split: prod.splits)

lemma and_then_fails:
  "and_then r f = (evs, Inl e) \<longleftrightarrow>
     r = (evs, Inl e) \<or> (\<exists>es a es'. r = (es, Inr a) \<and> f a = (es', Inl e) \<and> evs = es @ es')"
  by (cases r; cases "snd r") (auto simp: and_then_def split: prod.splits)

lemma fire_Nil [simp]: "fire [] h m = ([], Inr m)"
  by (simp add: fire_def)

lemma fire_from_trace:
  "fire_from i cbs h m = (evs, Inr m') \<Longrightarrow> evs = map (\<lambda>j. Fired j h) [i..<i + length cbs]"
proof (induction cbs arbitrary: i m evs)
  case Nil
  then show ?case by simp
next
  case (Cons c cs)
  from Cons.prems obtain m1 es where
    "invoke c h m = Inr m1" and rest: "fire_from (Suc i) cs h m1 = (es, Inr m')"
    and evs: "evs = Fired i h # es"
    by (auto simp: and_then_succeeds split: sum.splits)
  from Cons.IH [OF rest] have "es = map (\<lambda>j. Fired j h) [Suc i..<Suc i + length cs]" .
  moreover have "[i..<i + length (c # cs)] = i # [Suc i..<i + length (c # cs)]"
    by (rule upt_conv_Cons) simp
  moreover have "Suc i + length cs = i + length (c # cs)" by simp
  ultimately show ?case using evs by simp
qed

lemma fire_from_fails:
  "fire_from i cbs h m = (evs, Inl e) \<Longrightarrow> \<exists>x. e = Callback x"
  by (induction cbs arbitrary: i m evs) (auto simp: and_then_fails split: sum.splits)

lemma for_each_project:
  assumes hom: "P [] = []" "\<And>a b. P (a @ b) = P a @ P b"
    and body: "\<And>a s es s'. body a s = (es, Inr s') \<Longrightarrow> P es = g a"
    and run: "for_each body xs s = (evs, Inr s')"
  shows "P evs = concat (map g xs)"
  using run
proof (induction xs arbitrary: s evs)
  case Nil
  then show ?case by (simp add: hom)
next
  case (Cons a as)
  then obtain es s1 es' where "body a s = (es, Inr s1)" "for_each body as s1 = (es', Inr s')"
    "evs = es @ es'"
    by (auto simp: and_then_succeeds)
  with Cons.IH body show ?case by (simp add: hom)
qed

lemma concat_map_singleton: "concat (map (\<lambda>x. [h x]) xs) = map h xs"
  by (induction xs) auto

lemma map_enumerate_fst:
  "map (\<lambda>it. h (fst it)) (enumerate j xs) = map h [j..<j + length xs]"
  by (simp add: map_fst_enumerate [symmetric] comp_def del: map_fst_enumerate)

lemma train_batch_fails:
  assumes "train_batch b v n e cbs it s = (evs, Inl err)"
  shows "\<exists>x. err = Callback x"
  using assms
  by (cases it; cases s; cases "snd it")
     (auto simp: and_then_fails and_then_succeeds fire_def setitem_def case_prod_beta
           split: if_splits dest: fire_from_fails)




subsection \<open>How a pass and a run end\<close>

lemma VAE__train_empty:
  "VAE__train b v [] e cbs m = ([Pass Training e], Inl (Controller (UnboundLocalError ''batch_idx'')))"
  by (simp add: VAE__train_def and_then_Inr raise_error_def)

lemma VAE__validate_empty_no_callbacks:
  "VAE__validate b v [] e [] m
     = ([Pass Validation e], Inl (Controller (UnboundLocalError ''batch_idx'')))"
  by (simp add: VAE__validate_def and_then_Inr raise_error_def)

lemma for_each_fails:
  "for_each body xs s = (evs, Inl e) \<Longrightarrow> \<exists>a s' es. a \<in> set xs \<and> body a s' = (es, Inl e)"
proof (induction xs arbitrary: s evs)
  case Nil
  then show ?case by simp
next
  case (Cons a as)
  from Cons.prems consider
    (now) "body a s = (evs, Inl e)"
    | (later) es s1 es' where "body a s = (es, Inr s1)" "for_each body as s1 = (es', Inl e)"
    by (auto simp: and_then_fails)
  then show ?case
  proof cases
    case now
    then show ?thesis by auto
  next
    case later
    from Cons.IH [OF later(2)] obtain a' s' es'' where
      "a' \<in> set as" "body a' s' = (es'', Inl e)" by blast
    then show ?thesis by auto
  qed
qed

lemma for_each_last:
  assumes "for_each body xs s = (evs, Inr s')" and "xs \<noteq> []"
    and "\<And>a s es s'. body a s = (es, Inr s') \<Longrightarrow> Q s'"
  shows "Q s'"
  using assms(1,2)
proof (induction xs arbitrary: s evs)
  case Nil
  then show ?case by simp
next
  case (Cons a as)
  from Cons.prems obtain es s1 es' where
    body: "body a s = (es, Inr s1)" and rest: "for_each body as s1 = (es', Inr s')"
    by (auto simp: and_then_succeeds)
  show ?case
  proof (cases "as = []")
    case True
    with body rest assms(3) show ?thesis by auto
  next
    case False
    with Cons.IH [OF rest] show ?thesis by simp
  qed
qed

lemma train_batch_binds:
  assumes "train_batch b v n e cbs it s = (evs, Inr s')"
  shows "snd (snd s') \<noteq> None"
  using assms
  by (cases it; cases s; cases "snd it")
     (auto simp: and_then_succeeds case_prod_beta split: if_splits)

lemma validate_batch_binds:
  assumes "validate_batch b v e cbs it s = (evs, Inr s')"
  shows "snd (snd s') \<noteq> None"
  using assms
  by (cases it; cases s; cases "snd it")
     (auto simp: and_then_succeeds case_prod_beta split: if_splits)

lemma validate_batch_fails:
  assumes "validate_batch b v e cbs it s = (evs, Inl err)"
  shows "\<exists>x. err = Callback x"
  using assms
  by (cases it; cases s; cases "snd it")
     (auto simp: and_then_fails and_then_succeeds fire_def case_prod_beta
           split: if_splits dest: fire_from_fails)

lemma snd_and_then:
  "snd (and_then r f) = (case snd r of Inl e \<Rightarrow> Inl e | Inr a \<Rightarrow> snd (f a))"
  by (cases r; cases "snd r") (auto simp: and_then_def split: prod.splits)

lemma snd_for_each_fails:
  assumes "snd (for_each body xs s) = Inl e"
  shows "\<exists>a s' es. a \<in> set xs \<and> body a s' = (es, Inl e)"
proof -
  from assms have "for_each body xs s = (fst (for_each body xs s), Inl e)"
    by (simp add: prod_eq_iff)
  then show ?thesis by (rule for_each_fails)
qed

lemma snd_for_each_last:
  assumes "snd (for_each body xs s) = Inr s'" and "xs \<noteq> []"
    and "\<And>a s es s'. body a s = (es, Inr s') \<Longrightarrow> Q s'"
  shows "Q s'"
proof -
  from assms(1) have "for_each body xs s = (fst (for_each body xs s), Inr s')"
    by (simp add: prod_eq_iff)
  from for_each_last [OF this assms(2), of Q] assms(3) show ?thesis by blast
qed

lemma snd_fire_fails: "snd (fire cbs h m) = Inl err \<Longrightarrow> \<exists>x. err = Callback x"
  using fire_from_fails [of 0 cbs h m "fst (fire cbs h m)" err]
  by (simp add: fire_def prod_eq_iff)

lemma VAE__validate_result:
  "snd (VAE__validate b v V e cbs m) =
     (case snd (fire cbs (On_validation_begin e) (m\<lparr>torch := (torch m)\<lparr>training := False\<rparr>\<rparr>)) of
        Inl err \<Rightarrow> Inl err
      | Inr m1 \<Rightarrow>
         (case snd (for_each (validate_batch b v e cbs) (enumerate 0 V) (m1, 0, None)) of
            Inl err \<Rightarrow> Inl err
          | Inr (m2, valid_loss, batch_idx) \<Rightarrow>
             (case batch_idx of
                None \<Rightarrow> Inl (Controller (UnboundLocalError ''batch_idx''))
              | Some i \<Rightarrow>
                  snd (fire cbs (On_validation_end e)
                        (if cbs \<noteq> []
                         then m2\<lparr>logs := AList.update ''valid_loss''
                                  (FloatV (valid_loss / real (i + 1))) (logs m2)\<rparr>
                         else m2)))))"
  by (simp add: VAE__validate_def snd_and_then setitem_def raise_error_def Let_def
           split: sum.splits option.splits prod.splits)

lemma VAE__train_result:
  "snd (VAE__train b v L e cbs m) =
     (case snd (for_each (train_batch b v (length L) e cbs) (enumerate 0 L)
                  (m\<lparr>torch := (torch m)\<lparr>training := True\<rparr>\<rparr>, 0, None)) of
        Inl err \<Rightarrow> Inl err
      | Inr (m1, train_loss, batch_idx) \<Rightarrow>
         (case batch_idx of
            None \<Rightarrow> Inl (Controller (UnboundLocalError ''batch_idx''))
          | Some i \<Rightarrow>
              Inr (if cbs \<noteq> []
                   then m1\<lparr>logs := AList.update ''train_loss_average''
                            (FloatV (train_loss / real (i + 1))) (logs m1)\<rparr>
                   else m1)))"
  by (simp add: VAE__train_def snd_and_then setitem_def raise_error_def Let_def
           split: sum.splits option.splits prod.splits)

lemma enumerate_not_Nil: "xs \<noteq> [] \<Longrightarrow> enumerate i xs \<noteq> []"
  by (cases xs) simp_all

lemma VAE__train_fails:
  assumes "snd (VAE__train b v L e cbs m) = Inl err" and "L \<noteq> []"
  shows "\<exists>x. err = Callback x"
proof (cases "snd (for_each (train_batch b v (length L) e cbs) (enumerate 0 L)
                  (m\<lparr>torch := (torch m)\<lparr>training := True\<rparr>\<rparr>, 0, None))")
  case (Inl err')
  with assms(1) have "err' = err" by (simp add: VAE__train_result)
  with snd_for_each_fails [OF Inl] train_batch_fails show ?thesis by blast
next
  case (Inr s')
  from snd_for_each_last [OF Inr enumerate_not_Nil [OF assms(2)], of "\<lambda>s. snd (snd s) \<noteq> None"]
    train_batch_binds
  have "snd (snd s') \<noteq> None" by blast
  with assms(1) Inr show ?thesis
    by (cases s') (auto simp: VAE__train_result split: if_splits)
qed

lemma VAE__validate_fails:
  assumes "snd (VAE__validate b v V e cbs m) = Inl err" and "V \<noteq> []"
  shows "\<exists>x. err = Callback x"
proof (cases "snd (fire cbs (On_validation_begin e) (m\<lparr>torch := (torch m)\<lparr>training := False\<rparr>\<rparr>))")
  case (Inl err')
  with assms(1) have "err' = err" by (simp add: VAE__validate_result)
  with snd_fire_fails [OF Inl] show ?thesis by blast
next
  case m1: (Inr m1)
  show ?thesis
  proof (cases "snd (for_each (validate_batch b v e cbs) (enumerate 0 V) (m1, 0, None))")
    case (Inl err')
    with assms(1) m1 have "err' = err" by (simp add: VAE__validate_result)
    with snd_for_each_fails [OF Inl] validate_batch_fails show ?thesis by blast
  next
    case (Inr s')
    from snd_for_each_last [OF Inr enumerate_not_Nil [OF assms(2)], of "\<lambda>s. snd (snd s) \<noteq> None"]
      validate_batch_binds
    have "snd (snd s') \<noteq> None" by blast
    with assms(1) m1 Inr show ?thesis
      by (cases s') (auto simp: VAE__validate_result dest: snd_fire_fails)
  qed
qed

lemma VAE__validate_empty:
  "\<exists>err. snd (VAE__validate b v [] e cbs m) = Inl err
      \<and> (err = Controller (UnboundLocalError ''batch_idx'') \<or> (\<exists>x. err = Callback x))"
  by (auto simp: VAE__validate_result split: sum.splits dest: snd_fire_fails)

lemma fst_and_then:
  "fst (and_then r f) = (case snd r of Inl e \<Rightarrow> fst r | Inr a \<Rightarrow> fst r @ fst (f a))"
  by (cases r; cases "snd r") (auto simp: and_then_def split: prod.splits)

lemma or_raise_simps [simp]:
  "or_raise (Inl e) f = Inl e"
  "or_raise (Inr a) f = f a"
  by (simp_all add: or_raise_def)

lemma or_raise_eq_Inr:
  "or_raise r f = Inr c \<longleftrightarrow> (\<exists>a. r = Inr a \<and> f a = Inr c)"
  by (cases r) simp_all

lemma or_raise_eq_Inl:
  "or_raise r f = Inl e \<longleftrightarrow> r = Inl e \<or> (\<exists>a. r = Inr a \<and> f a = Inl e)"
  by (cases r) simp_all

lemma getitem_eq_Inr: "getitem cp k = Inr x \<longleftrightarrow> map_of cp k = Some x"
  by (simp add: getitem_def split: option.splits)

lemma getitem_eq_Inl: "getitem cp k = Inl e \<longleftrightarrow> map_of cp k = None \<and> e = KeyError k"
  by (auto simp: getitem_def split: option.splits)

lemma restore_eq_Inr:
  "restore load item = Inr s \<longleftrightarrow> (\<exists>sd. item = StateDict sd \<and> load sd = Some s)"
  by (auto simp: restore_def split: cp_item.splits option.splits)

lemma restore_eq_Inl:
  "restore load item = Inl e \<longleftrightarrow>
     (\<exists>n. item = IntItem n \<and> e = TypeError)
     \<or> (\<exists>sd. item = StateDict sd \<and> load sd = None \<and> e = TorchError)"
  by (auto simp: restore_def split: cp_item.splits option.splits)

lemma load_checkpoint_errors:
  assumes "VAE__load_checkpoint b path m = Inl e"
  shows "e = TorchError \<or> e = TypeError \<or> (\<exists>k. e = KeyError k)"
proof (cases "torch_load b path")
  case None
  with assms show ?thesis by (simp add: VAE__load_checkpoint_def)
next
  case (Some cp)
  with assms show ?thesis
    by (simp add: VAE__load_checkpoint_def or_raise_eq_Inl getitem_eq_Inl getitem_eq_Inr
          restore_eq_Inl restore_eq_Inr) blast
qed

lemma load_checkpoint_frame:
  assumes "VAE__load_checkpoint b path m = Inr (m', item)"
  shows "logs m' = logs m \<and> world m' = world m
     \<and> scale (torch m') = scale (torch m) \<and> growth_tracker (torch m') = growth_tracker (torch m)
     \<and> rng (torch m') = rng (torch m) \<and> training (torch m') = training (torch m)
     \<and> (\<exists>cp e d opt. torch_load b path = Some cp
           \<and> map_of cp ''encoder_state_dict'' = Some (StateDict e)
           \<and> load_state_dict b (encoder (torch m)) e = Some (encoder (torch m'))
           \<and> map_of cp ''decoder_state_dict'' = Some (StateDict d)
           \<and> load_state_dict b (decoder (torch m)) d = Some (decoder (torch m'))
           \<and> map_of cp ''optimizer_state_dict'' = Some (StateDict opt)
           \<and> optimizer_load_state_dict b (optimizer (torch m)) opt = Some (optimizer (torch m'))
           \<and> map_of cp ''epoch'' = Some item)"
proof (cases "torch_load b path")
  case None
  with assms show ?thesis by (simp add: VAE__load_checkpoint_def)
next
  case (Some cp)
  with assms show ?thesis
    by (simp add: VAE__load_checkpoint_def or_raise_eq_Inr getitem_eq_Inr restore_eq_Inr) auto
qed

lemma load_checkpoint_missing:
  assumes "torch_load b path = Some cp" and "k \<in> set required_fields" and "map_of cp k = None"
  shows "\<exists>e. VAE__load_checkpoint b path m = Inl e
           \<and> (e = TypeError \<or> e = TorchError
                \<or> (\<exists>k' \<in> set required_fields. e = KeyError k' \<and> map_of cp k' = None))"
proof (cases "VAE__load_checkpoint b path m")
  case (Inl e)
  with assms(1) have "e = TypeError \<or> e = TorchError
      \<or> (\<exists>k' \<in> set required_fields. e = KeyError k' \<and> map_of cp k' = None)"
    by (simp add: VAE__load_checkpoint_def or_raise_eq_Inl getitem_eq_Inl getitem_eq_Inr
          restore_eq_Inl restore_eq_Inr required_fields_def) blast
  with Inl show ?thesis by simp
next
  case (Inr r)
  then obtain m' item where "VAE__load_checkpoint b path m = Inr (m', item)" by (cases r) simp
  from load_checkpoint_frame [OF this] assms show ?thesis
    by (auto simp: required_fields_def)
qed

lemma load_checkpoint_logs:
  "VAE__load_checkpoint b path m = Inl e \<Longrightarrow> VAE__load_checkpoint b path (m\<lparr>logs := l\<rparr>) = Inl e"
  by (cases "torch_load b path")
     (simp_all add: VAE__load_checkpoint_def or_raise_def getitem_def restore_def
        split: option.splits sum.splits cp_item.splits)

lemma and_then_snd_Inr:
  "snd r = Inr a \<Longrightarrow> and_then r f = (fst r @ fst (f a), snd (f a))"
  by (cases r) (simp add: and_then_Inr)

lemma build_logs_succeeds:
  "\<exists>l. snd (build_logs v cbs m) = Inr (m\<lparr>logs := l\<rparr>)"
  by (simp add: build_logs_def setitem_def and_then_Inr) blast

lemma uncaught_simps [simp]:
  "uncaught (Inl e) = ([], Inl (Controller e))"
  "uncaught (Inr a) = ([], Inr a)"
  by (simp_all add: uncaught_def raise_error_def)

lemma start_epoch_of_none [simp]:
  "start_epoch_of b None m = Inr (m, 1)"
  "start_epoch_of b (Some []) m = Inr (m, 1)"
  by (simp_all add: start_epoch_of_def)

lemma start_epoch_of_load_fails:
  "VAE__load_checkpoint b path m = Inl e \<Longrightarrow> path \<noteq> [] \<Longrightarrow>
     start_epoch_of b (Some path) (m\<lparr>logs := l\<rparr>) = Inl e"
  using load_checkpoint_logs [of b path m e l]
  by (simp add: start_epoch_of_def)

lemma start_epoch_of_some:
  "path \<noteq> [] \<Longrightarrow> start_epoch_of b (Some path) m =
     (case VAE__load_checkpoint b path m of
        Inl e \<Rightarrow> Inl e
      | Inr (m', IntItem epoch) \<Rightarrow> Inr (m', 1 + epoch)
      | Inr (m', StateDict sd) \<Rightarrow> Inl TypeError)"
  by (simp add: start_epoch_of_def or_raise_def split: sum.splits prod.splits cp_item.splits)

lemma start_epoch_of_errors:
  assumes "start_epoch_of b ck m = Inl e"
  shows "e = TorchError \<or> e = TypeError \<or> (\<exists>k. e = KeyError k)"
proof (cases ck)
  case None
  with assms show ?thesis by simp
next
  case (Some path)
  show ?thesis
  proof (cases "path = []")
    case True
    with assms Some show ?thesis by simp
  next
    case False
    show ?thesis
    proof (cases "VAE__load_checkpoint b path m")
      case (Inl e')
      with assms Some False load_checkpoint_errors [OF Inl] show ?thesis
        by (simp add: start_epoch_of_some)
    next
      case (Inr r)
      with assms Some False show ?thesis
        by (cases r; cases "snd r") (simp_all add: start_epoch_of_some)
    qed
  qed
qed

lemma start_epoch_of_resumes:
  assumes "start_epoch_of b (Some path) m = Inr (m', s)" and "path \<noteq> []"
  shows "\<exists>epoch. VAE__load_checkpoint b path m = Inr (m', IntItem epoch) \<and> s = epoch + 1"
proof (cases "VAE__load_checkpoint b path m")
  case (Inl e)
  with assms show ?thesis by (simp add: start_epoch_of_some)
next
  case (Inr r)
  with assms show ?thesis
    by (cases r; cases "snd r") (simp_all add: start_epoch_of_some)
qed

lemma VAE_train_load_fails:
  assumes "VAE__load_checkpoint b path m = Inl e" and "path \<noteq> []"
  shows "VAE_train b v L V epochs (Some path) cbs m = (fst (build_logs v cbs m), Inl (Controller e))"
proof -
  obtain l where bl: "snd (build_logs v cbs m) = Inr (m\<lparr>logs := l\<rparr>)"
    using build_logs_succeeds [of v cbs m] by blast
  show ?thesis
    unfolding VAE_train_def
    by (simp add: and_then_snd_Inr [OF bl] start_epoch_of_load_fails [OF assms])
qed

lemma VAE_train_succeeds:
  assumes "VAE_train b v L V epochs ck cbs m = (evs, Inr m')"
  shows "\<exists>l m1 s es1 m2 es2 m3 es3.
           snd (build_logs v cbs m) = Inr (m\<lparr>logs := l\<rparr>)
         \<and> start_epoch_of b ck (m\<lparr>logs := l\<rparr>) = Inr (m1, s)
         \<and> fire cbs On_train_begin m1 = (es1, Inr m2)
         \<and> for_each (run_epoch b v L V cbs) [s..epochs] m2 = (es2, Inr m3)
         \<and> fire cbs On_train_end m3 = (es3, Inr m')
         \<and> evs = fst (build_logs v cbs m) @ es1 @ es2 @ es3"
proof -
  obtain l where bl: "snd (build_logs v cbs m) = Inr (m\<lparr>logs := l\<rparr>)"
    using build_logs_succeeds [of v cbs m] by blast
  show ?thesis
  proof (cases "start_epoch_of b ck (m\<lparr>logs := l\<rparr>)")
    case (Inl e)
    with assms show ?thesis
      unfolding VAE_train_def by (simp add: and_then_snd_Inr [OF bl])
  next
    case (Inr r)
    obtain m1 s where r: "r = (m1, s)" by (cases r)
    from assms have "and_then (fire cbs On_train_begin m1) (\<lambda>m.
         and_then (for_each (run_epoch b v L V cbs) [s..epochs] m) (fire cbs On_train_end))
       = (drop (length (fst (build_logs v cbs m))) evs, Inr m')
       \<and> evs = fst (build_logs v cbs m) @ drop (length (fst (build_logs v cbs m))) evs"
      unfolding VAE_train_def by (auto simp: and_then_snd_Inr [OF bl] Inr r prod_eq_iff)
    then show ?thesis using bl Inr r
      by (auto simp: and_then_succeeds)
  qed
qed


subsection \<open>What a pass and a run leave in the trace\<close>

lemma train_batch_trace:
  assumes "train_batch b v n e cbs it s = (evs, Inr s')"
  shows "\<exists>loss loss_rec loss_kld.
      evs = map (\<lambda>j. Fired j (On_batch_begin (fst it) e)) [0..<length cbs]
          @ Batch_loss Training loss
          # (if cbs \<noteq> [] then
               [Wrote ''train_loss'' (FloatV loss), Wrote ''train_loss_rec'' (FloatV loss_rec),
                Wrote ''train_loss_kld'' (FloatV loss_kld),
                Wrote ''global_step'' (IntV ((e - 1) * int n + int (fst it)))]
             else [])
          @ map (\<lambda>j. Fired j (On_batch_end (fst it) e)) [0..<length cbs]
      \<and> fst (snd s') = fst (snd s) + loss \<and> snd (snd s') = Some (fst it)"
  using assms
  by (cases it; cases s; cases "snd it")
     (auto simp: and_then_succeeds fire_def setitem_def case_prod_beta split: if_splits
           dest!: fire_from_trace)

lemma validate_batch_trace:
  assumes "validate_batch b v e cbs it s = (evs, Inr s')"
  shows "\<exists>loss mu.
      evs = Batch_loss Validation loss
          # map (\<lambda>j. Fired j (On_validation_batch_end e (fst it) (fst (snd (snd it)))
                                   (fst (snd (snd (snd it)))) mu)) [0..<length cbs]
      \<and> fst (snd s') = fst (snd s) + loss \<and> snd (snd s') = Some (fst it)"
  using assms
  by (cases it; cases s; cases "snd it")
     (auto simp: and_then_succeeds fire_def case_prod_beta split: if_splits
           dest!: fire_from_trace)

lemma for_each_train_batch_sum:
  "for_each (train_batch b v n e cbs) xs s = (evs, Inr s') \<Longrightarrow>
     fst (snd s') = fst (snd s) + sum_list (batch_losses Training evs)
     \<and> batch_losses Validation evs = []"
proof (induction xs arbitrary: s evs)
  case Nil
  then show ?case by simp
next
  case (Cons a as)
  from Cons.prems obtain es s1 es' where
    body: "train_batch b v n e cbs a s = (es, Inr s1)"
    and rest: "for_each (train_batch b v n e cbs) as s1 = (es', Inr s')"
    and evs: "evs = es @ es'"
    by (auto simp: and_then_succeeds)
  from train_batch_trace [OF body] have
    "fst (snd s1) = fst (snd s) + sum_list (batch_losses Training es)"
    "batch_losses Validation es = []"
    by auto
  with Cons.IH [OF rest] evs show ?case by simp
qed

lemma for_each_validate_batch_sum:
  "for_each (validate_batch b v e cbs) xs s = (evs, Inr s') \<Longrightarrow>
     fst (snd s') = fst (snd s) + sum_list (batch_losses Validation evs)
     \<and> batch_losses Training evs = []"
proof (induction xs arbitrary: s evs)
  case Nil
  then show ?case by simp
next
  case (Cons a as)
  from Cons.prems obtain es s1 es' where
    body: "validate_batch b v e cbs a s = (es, Inr s1)"
    and rest: "for_each (validate_batch b v e cbs) as s1 = (es', Inr s')"
    and evs: "evs = es @ es'"
    by (auto simp: and_then_succeeds)
  from validate_batch_trace [OF body] have
    "fst (snd s1) = fst (snd s) + sum_list (batch_losses Validation es)"
    "batch_losses Training es = []"
    by auto
  with Cons.IH [OF rest] evs show ?case by simp
qed

lemma for_each_train_batch_count:
  "for_each (train_batch b v n e cbs) xs s = (evs, Inr s') \<Longrightarrow>
     length (batch_losses Training evs) = length xs"
proof (induction xs arbitrary: s evs)
  case Nil
  then show ?case by simp
next
  case (Cons a as)
  from Cons.prems obtain es s1 es' where
    body: "train_batch b v n e cbs a s = (es, Inr s1)"
    and rest: "for_each (train_batch b v n e cbs) as s1 = (es', Inr s')"
    and evs: "evs = es @ es'"
    by (auto simp: and_then_succeeds)
  from train_batch_trace [OF body] have "length (batch_losses Training es) = 1" by auto
  with Cons.IH [OF rest] evs show ?case by simp
qed

lemma for_each_train_batch_index:
  "for_each (train_batch b v n e cbs) (enumerate j xs) s = (evs, Inr s') \<Longrightarrow> xs \<noteq> [] \<Longrightarrow>
     snd (snd s') = Some (j + length xs - 1)"
proof (induction xs arbitrary: j s evs)
  case Nil
  then show ?case by simp
next
  case (Cons a as)
  from Cons.prems obtain es s1 es' where
    body: "train_batch b v n e cbs (j, a) s = (es, Inr s1)"
    and rest: "for_each (train_batch b v n e cbs) (enumerate (Suc j) as) s1 = (es', Inr s')"
    by (auto simp: and_then_succeeds)
  show ?case
  proof (cases "as = []")
    case True
    with rest train_batch_trace [OF body] show ?thesis by auto
  next
    case False
    with Cons.IH [OF rest] show ?thesis by simp
  qed
qed

lemma for_each_validate_batch_index:
  "for_each (validate_batch b v e cbs) (enumerate j xs) s = (evs, Inr s') \<Longrightarrow> xs \<noteq> [] \<Longrightarrow>
     snd (snd s') = Some (j + length xs - 1)"
proof (induction xs arbitrary: j s evs)
  case Nil
  then show ?case by simp
next
  case (Cons a as)
  from Cons.prems obtain es s1 es' where
    body: "validate_batch b v e cbs (j, a) s = (es, Inr s1)"
    and rest: "for_each (validate_batch b v e cbs) (enumerate (Suc j) as) s1 = (es', Inr s')"
    by (auto simp: and_then_succeeds)
  show ?case
  proof (cases "as = []")
    case True
    with rest validate_batch_trace [OF body] show ?thesis by auto
  next
    case False
    with Cons.IH [OF rest] show ?thesis by simp
  qed
qed

lemma VAE__train_succeeds:
  assumes "VAE__train b v L e cbs m = (evs, Inr m')"
  shows "\<exists>es m1 acc.
      for_each (train_batch b v (length L) e cbs) (enumerate 0 L)
        (m\<lparr>torch := (torch m)\<lparr>training := True\<rparr>\<rparr>, 0, None) = (es, Inr (m1, acc, Some (length L - 1)))
      \<and> L \<noteq> []
      \<and> evs = Pass Training e # es
                @ (if cbs \<noteq> [] then [Wrote ''train_loss_average'' (FloatV (acc / real (length L)))]
                   else [])
      \<and> m' = (if cbs \<noteq> []
               then m1\<lparr>logs := AList.update ''train_loss_average''
                        (FloatV (acc / real (length L))) (logs m1)\<rparr>
               else m1)"
proof -
  from assms obtain es m1 acc i where
    loop: "for_each (train_batch b v (length L) e cbs) (enumerate 0 L)
        (m\<lparr>torch := (torch m)\<lparr>training := True\<rparr>\<rparr>, 0, None) = (es, Inr (m1, acc, Some i))"
    and evs: "evs = Pass Training e # es
                @ (if cbs \<noteq> [] then [Wrote ''train_loss_average'' (FloatV (acc / real (i + 1)))]
                   else [])"
    and m': "m' = (if cbs \<noteq> []
               then m1\<lparr>logs := AList.update ''train_loss_average''
                        (FloatV (acc / real (i + 1))) (logs m1)\<rparr>
               else m1)"
    by (auto simp: VAE__train_def and_then_succeeds setitem_def raise_error_def Let_def
             split: option.splits if_splits)
  have ne: "L \<noteq> []"
  proof
    assume "L = []"
    with loop show False by simp
  qed
  from for_each_train_batch_index [OF loop ne] have "i = length L - 1" by simp
  with ne have "i + 1 = length L" by (cases L) simp_all
  with loop evs m' ne \<open>i = length L - 1\<close> show ?thesis by auto
qed

lemma VAE__validate_succeeds:
  assumes "VAE__validate b v V e cbs m = (evs, Inr m')"
  shows "\<exists>es0 m1 es m2 acc es3.
      fire cbs (On_validation_begin e) (m\<lparr>torch := (torch m)\<lparr>training := False\<rparr>\<rparr>) = (es0, Inr m1)
      \<and> for_each (validate_batch b v e cbs) (enumerate 0 V) (m1, 0, None)
           = (es, Inr (m2, acc, Some (length V - 1)))
      \<and> V \<noteq> []
      \<and> fire cbs (On_validation_end e)
           (if cbs \<noteq> []
            then m2\<lparr>logs := AList.update ''valid_loss'' (FloatV (acc / real (length V))) (logs m2)\<rparr>
            else m2) = (es3, Inr m')
      \<and> evs = Pass Validation e # es0 @ es
                @ (if cbs \<noteq> [] then [Wrote ''valid_loss'' (FloatV (acc / real (length V)))] else [])
                @ es3"
proof -
  from assms obtain es0 m1 es m2 acc i es3 where
    start: "fire cbs (On_validation_begin e) (m\<lparr>torch := (torch m)\<lparr>training := False\<rparr>\<rparr>) = (es0, Inr m1)"
    and loop: "for_each (validate_batch b v e cbs) (enumerate 0 V) (m1, 0, None)
           = (es, Inr (m2, acc, Some i))"
    and fin: "fire cbs (On_validation_end e)
           (if cbs \<noteq> []
            then m2\<lparr>logs := AList.update ''valid_loss'' (FloatV (acc / real (i + 1))) (logs m2)\<rparr>
            else m2) = (es3, Inr m')"
    and evs: "evs = Pass Validation e # es0 @ es
                @ (if cbs \<noteq> [] then [Wrote ''valid_loss'' (FloatV (acc / real (i + 1)))] else [])
                @ es3"
    by (auto simp: VAE__validate_def and_then_succeeds setitem_def raise_error_def Let_def
             split: option.splits if_splits)
  have ne: "V \<noteq> []"
  proof
    assume "V = []"
    with loop show False by simp
  qed
  from for_each_validate_batch_index [OF loop ne] have i: "i = length V - 1" by simp
  with ne have "i + 1 = length V" by (cases V) simp_all
  with start loop fin evs ne i show ?thesis by auto
qed

lemma run_epoch_succeeds:
  assumes "run_epoch b v L V cbs e m = (evs, Inr m')"
  shows "\<exists>es0 m1 es1 m2 es2 m3 es3.
      fire cbs (On_epoch_begin e) m = (es0, Inr m1)
      \<and> VAE__train b v L e cbs m1 = (es1, Inr m2)
      \<and> VAE__validate b v V e cbs m2 = (es2, Inr m3)
      \<and> fire cbs (On_epoch_end e) m3 = (es3, Inr m')
      \<and> evs = es0 @ es1 @ es2 @ es3"
  using assms by (auto simp: run_epoch_def and_then_succeeds)

lemma train_batch_written_other:
  assumes "train_batch b v n e cbs it s = (evs, Inr s')"
    and "k = ''train_loss_average'' \<or> k = ''valid_loss''"
  shows "written k evs = []"
  using train_batch_trace [OF assms(1)] assms(2) by auto

lemma train_batch_epochs_run:
  assumes "train_batch b v n e cbs it s = (evs, Inr s')"
  shows "epochs_run p evs = []"
  using train_batch_trace [OF assms(1)] by auto

lemma train_batch_global_step:
  assumes "train_batch b v n e cbs it s = (evs, Inr s')"
  shows "written ''global_step'' evs
           = (if cbs = [] then [] else [IntV ((e - 1) * int n + int (fst it))])"
  using train_batch_trace [OF assms(1)] by auto

lemma validate_batch_written:
  assumes "validate_batch b v e cbs it s = (evs, Inr s')"
  shows "written k evs = []"
  using validate_batch_trace [OF assms(1)] by auto

lemma validate_batch_epochs_run:
  assumes "validate_batch b v e cbs it s = (evs, Inr s')"
  shows "epochs_run p evs = []"
  using validate_batch_trace [OF assms(1)] by auto

lemma concat_map_Nil: "concat (map (\<lambda>x. []) xs) = []"
  by (induction xs) auto

lemma train_loop_written_other:
  assumes "for_each (train_batch b v n e cbs) xs s = (evs, Inr s')"
    and "k = ''train_loss_average'' \<or> k = ''valid_loss''"
  shows "written k evs = []"
proof -
  have "written k evs = concat (map (\<lambda>x. []) xs)"
    by (rule for_each_project [OF _ _ _ assms(1)])
       (simp_all add: train_batch_written_other [OF _ assms(2)])
  then show ?thesis by (simp add: concat_map_Nil)
qed

lemma train_loop_epochs_run:
  assumes "for_each (train_batch b v n e cbs) xs s = (evs, Inr s')"
  shows "epochs_run p evs = []"
proof -
  have "epochs_run p evs = concat (map (\<lambda>x. []) xs)"
    by (rule for_each_project [OF _ _ _ assms(1)]) (simp_all add: train_batch_epochs_run)
  then show ?thesis by (simp add: concat_map_Nil)
qed

lemma train_loop_global_step:
  assumes "for_each (train_batch b v n e cbs) (enumerate j xs) s = (evs, Inr s')"
  shows "written ''global_step'' evs
           = (if cbs = [] then [] else map (\<lambda>i. IntV ((e - 1) * int n + int i)) [j..<j + length xs])"
proof -
  have "written ''global_step'' evs
          = concat (map (\<lambda>it. if cbs = [] then [] else [IntV ((e - 1) * int n + int (fst it))])
                     (enumerate j xs))"
    by (rule for_each_project [OF _ _ _ assms]) (simp_all add: train_batch_global_step)
  also have "\<dots> = (if cbs = [] then []
                   else map (\<lambda>i. IntV ((e - 1) * int n + int i)) [j..<j + length xs])"
    using map_enumerate_fst [of "\<lambda>i. IntV ((e - 1) * int n + int i)" j xs]
    by (simp add: concat_map_singleton concat_map_Nil)
  finally show ?thesis .
qed

lemma validate_loop_written:
  assumes "for_each (validate_batch b v e cbs) xs s = (evs, Inr s')"
  shows "written k evs = []"
proof -
  have "written k evs = concat (map (\<lambda>x. []) xs)"
    by (rule for_each_project [OF _ _ _ assms(1)]) (simp_all add: validate_batch_written)
  then show ?thesis by (simp add: concat_map_Nil)
qed

lemma validate_loop_epochs_run:
  assumes "for_each (validate_batch b v e cbs) xs s = (evs, Inr s')"
  shows "epochs_run p evs = []"
proof -
  have "epochs_run p evs = concat (map (\<lambda>x. []) xs)"
    by (rule for_each_project [OF _ _ _ assms(1)]) (simp_all add: validate_batch_epochs_run)
  then show ?thesis by (simp add: concat_map_Nil)
qed

lemma fire_trace: "fire cbs h m = (evs, Inr m') \<Longrightarrow> evs = map (\<lambda>j. Fired j h) [0..<length cbs]"
  using fire_from_trace [of 0 cbs h m evs m'] by (simp add: fire_def)

text \<open>What a training pass leaves in the trace.\<close>

lemma VAE__train_observed:
  assumes "VAE__train b v L e cbs m = (evs, Inr m')"
  shows "epochs_run p evs = (if p = Training then [e] else [])"
    and "written ''global_step'' evs
           = (if cbs = [] then []
              else map (\<lambda>i. IntV ((e - 1) * int (length L) + int i)) [0..<length L])"
    and "written ''valid_loss'' evs = []"
    and "written ''train_loss_average'' evs
           = (if cbs = [] then []
              else [FloatV (sum_list (batch_losses Training evs) / real (length L))])"
    and "batch_losses Validation evs = []"
    and "length (batch_losses Training evs) = length L"
    and "L \<noteq> []"
    and "cbs \<noteq> [] \<Longrightarrow> map_of (logs m') ''train_loss_average''
           = Some (FloatV (sum_list (batch_losses Training evs) / real (length L)))"
proof -
  from VAE__train_succeeds [OF assms] obtain es m1 acc where
    loop: "for_each (train_batch b v (length L) e cbs) (enumerate 0 L)
        (m\<lparr>torch := (torch m)\<lparr>training := True\<rparr>\<rparr>, 0, None) = (es, Inr (m1, acc, Some (length L - 1)))"
    and ne: "L \<noteq> []"
    and evs: "evs = Pass Training e # es
                @ (if cbs \<noteq> [] then [Wrote ''train_loss_average'' (FloatV (acc / real (length L)))]
                   else [])"
    and m': "m' = (if cbs \<noteq> []
               then m1\<lparr>logs := AList.update ''train_loss_average''
                        (FloatV (acc / real (length L))) (logs m1)\<rparr>
               else m1)"
    by blast
  from for_each_train_batch_sum [OF loop] have acc: "acc = sum_list (batch_losses Training es)"
    and nv: "batch_losses Validation es = []" by simp_all
  show "epochs_run p evs = (if p = Training then [e] else [])"
    using evs train_loop_epochs_run [OF loop] by simp
  show "written ''global_step'' evs
           = (if cbs = [] then []
              else map (\<lambda>i. IntV ((e - 1) * int (length L) + int i)) [0..<length L])"
    using evs train_loop_global_step [OF loop] by simp
  show "written ''valid_loss'' evs = []"
    using evs train_loop_written_other [OF loop, of "''valid_loss''"] by simp
  show "written ''train_loss_average'' evs
           = (if cbs = [] then []
              else [FloatV (sum_list (batch_losses Training evs) / real (length L))])"
    using evs train_loop_written_other [OF loop, of "''train_loss_average''"] acc by simp
  show "batch_losses Validation evs = []" using evs nv by simp
  show "length (batch_losses Training evs) = length L"
    using evs for_each_train_batch_count [OF loop] by simp
  show "L \<noteq> []" by (rule ne)
  show "map_of (logs m') ''train_loss_average''
           = Some (FloatV (sum_list (batch_losses Training evs) / real (length L)))"
    if "cbs \<noteq> []"
    using that evs m' acc by (simp add: update_conv')
qed

lemma for_each_validate_batch_count:
  "for_each (validate_batch b v e cbs) xs s = (evs, Inr s') \<Longrightarrow>
     length (batch_losses Validation evs) = length xs"
proof (induction xs arbitrary: s evs)
  case Nil
  then show ?case by simp
next
  case (Cons a as)
  from Cons.prems obtain es s1 es' where
    body: "validate_batch b v e cbs a s = (es, Inr s1)"
    and rest: "for_each (validate_batch b v e cbs) as s1 = (es', Inr s')"
    and evs: "evs = es @ es'"
    by (auto simp: and_then_succeeds)
  from validate_batch_trace [OF body] have "length (batch_losses Validation es) = 1" by auto
  with Cons.IH [OF rest] evs show ?case by simp
qed

text \<open>What a validation pass leaves in the trace.\<close>

lemma VAE__validate_observed:
  assumes "VAE__validate b v V e cbs m = (evs, Inr m')"
  shows "epochs_run p evs = (if p = Validation then [e] else [])"
    and "written ''global_step'' evs = []"
    and "written ''train_loss_average'' evs = []"
    and "written ''valid_loss'' evs
           = (if cbs = [] then []
              else [FloatV (sum_list (batch_losses Validation evs) / real (length V))])"
    and "batch_losses Training evs = []"
    and "length (batch_losses Validation evs) = length V"
    and "V \<noteq> []"
proof -
  from VAE__validate_succeeds [OF assms] obtain es0 m1 es m2 acc es3 where
    start: "fire cbs (On_validation_begin e) (m\<lparr>torch := (torch m)\<lparr>training := False\<rparr>\<rparr>) = (es0, Inr m1)"
    and loop: "for_each (validate_batch b v e cbs) (enumerate 0 V) (m1, 0, None)
           = (es, Inr (m2, acc, Some (length V - 1)))"
    and ne: "V \<noteq> []"
    and fin: "fire cbs (On_validation_end e)
           (if cbs \<noteq> []
            then m2\<lparr>logs := AList.update ''valid_loss'' (FloatV (acc / real (length V))) (logs m2)\<rparr>
            else m2) = (es3, Inr m')"
    and evs: "evs = Pass Validation e # es0 @ es
                @ (if cbs \<noteq> [] then [Wrote ''valid_loss'' (FloatV (acc / real (length V)))] else [])
                @ es3"
    by blast
  note es0 = fire_trace [OF start] and es3 = fire_trace [OF fin]
  from for_each_validate_batch_sum [OF loop] have acc: "acc = sum_list (batch_losses Validation es)"
    and nt: "batch_losses Training es = []" by simp_all
  show "epochs_run p evs = (if p = Validation then [e] else [])"
    using evs es0 es3 validate_loop_epochs_run [OF loop] by simp
  show "written ''global_step'' evs = []"
    using evs es0 es3 validate_loop_written [OF loop] by simp
  show "written ''train_loss_average'' evs = []"
    using evs es0 es3 validate_loop_written [OF loop] by simp
  show "written ''valid_loss'' evs
           = (if cbs = [] then []
              else [FloatV (sum_list (batch_losses Validation evs) / real (length V))])"
    using evs es0 es3 validate_loop_written [OF loop] acc by simp
  show "batch_losses Training evs = []" using evs es0 es3 nt by simp
  show "length (batch_losses Validation evs) = length V"
    using evs es0 es3 for_each_validate_batch_count [OF loop] by simp
  show "V \<noteq> []" by (rule ne)
qed

text \<open>What one epoch leaves in the trace.\<close>

lemma run_epoch_observed:
  assumes "run_epoch b v L V cbs e m = (evs, Inr m')"
  shows "epochs_run p evs = [e]"
    and "written ''global_step'' evs
           = (if cbs = [] then []
              else map (\<lambda>i. IntV ((e - 1) * int (length L) + int i)) [0..<length L])"
    and "length (written ''train_loss_average'' evs) = (if cbs = [] then 0 else 1)"
    and "length (written ''valid_loss'' evs) = (if cbs = [] then 0 else 1)"
    and "L \<noteq> []" and "V \<noteq> []"
proof -
  from run_epoch_succeeds [OF assms] obtain es0 m1 es1 m2 es2 m3 es3 where
    f0: "fire cbs (On_epoch_begin e) m = (es0, Inr m1)"
    and tr: "VAE__train b v L e cbs m1 = (es1, Inr m2)"
    and va: "VAE__validate b v V e cbs m2 = (es2, Inr m3)"
    and f3: "fire cbs (On_epoch_end e) m3 = (es3, Inr m')"
    and evs: "evs = es0 @ es1 @ es2 @ es3"
    by blast
  note es0 = fire_trace [OF f0] and es3 = fire_trace [OF f3]
  show "epochs_run p evs = [e]"
    using evs es0 es3 VAE__train_observed(1) [OF tr, of p] VAE__validate_observed(1) [OF va, of p]
    by (cases p) simp_all
  show "written ''global_step'' evs
           = (if cbs = [] then []
              else map (\<lambda>i. IntV ((e - 1) * int (length L) + int i)) [0..<length L])"
    using evs es0 es3 VAE__train_observed(2) [OF tr] VAE__validate_observed(2) [OF va] by simp
  show "length (written ''train_loss_average'' evs) = (if cbs = [] then 0 else 1)"
    using evs es0 es3 VAE__train_observed(4) [OF tr] VAE__validate_observed(3) [OF va] by simp
  show "length (written ''valid_loss'' evs) = (if cbs = [] then 0 else 1)"
    using evs es0 es3 VAE__train_observed(3) [OF tr] VAE__validate_observed(4) [OF va] by simp
  show "L \<noteq> []" by (rule VAE__train_observed(7) [OF tr])
  show "V \<noteq> []" by (rule VAE__validate_observed(7) [OF va])
qed

lemma epochs_loop_epochs_run:
  assumes "for_each (run_epoch b v L V cbs) es m = (evs, Inr m')"
  shows "epochs_run p evs = es"
proof -
  have "epochs_run p evs = concat (map (\<lambda>e. [e]) es)"
    by (rule for_each_project [OF _ _ _ assms]) (simp_all add: run_epoch_observed(1))
  then show ?thesis by (simp add: concat_map_singleton)
qed

lemma epochs_loop_global_step:
  assumes "for_each (run_epoch b v L V cbs) es m = (evs, Inr m')" and "cbs \<noteq> []"
  shows "written ''global_step'' evs
           = concat (map (\<lambda>e. map (\<lambda>i. IntV ((e - 1) * int (length L) + int i)) [0..<length L]) es)"
  by (rule for_each_project [OF _ _ _ assms(1)]) (simp_all add: run_epoch_observed(2) assms(2))

lemma for_each_length:
  assumes hom: "P [] = []" "\<And>a b. P (a @ b) = P a @ P b"
    and body: "\<And>a s es s'. body a s = (es, Inr s') \<Longrightarrow> length (P es) = 1"
    and run: "for_each body xs s = (evs, Inr s')"
  shows "length (P evs) = length xs"
  using run
proof (induction xs arbitrary: s evs)
  case Nil
  then show ?case by (simp add: hom)
next
  case (Cons a as)
  then obtain es s1 es' where "body a s = (es, Inr s1)" "for_each body as s1 = (es', Inr s')"
    "evs = es @ es'"
    by (auto simp: and_then_succeeds)
  with Cons.IH body show ?case by (simp add: hom)
qed

lemma epochs_loop_count:
  assumes "for_each (run_epoch b v L V cbs) es m = (evs, Inr m')" and "cbs \<noteq> []"
  shows "length (written ''train_loss_average'' evs) = length es"
    and "length (written ''valid_loss'' evs) = length es"
proof -
  show "length (written ''train_loss_average'' evs) = length es"
    by (rule for_each_length [OF _ _ _ assms(1)]) (simp_all add: run_epoch_observed(3) assms(2))
  show "length (written ''valid_loss'' evs) = length es"
    by (rule for_each_length [OF _ _ _ assms(1)]) (simp_all add: run_epoch_observed(4) assms(2))
qed

lemma map_add_int_upt: "map (\<lambda>i. c + int i) [0..<n] = [c..c + int n - 1]"
proof (induction n)
  case 0
  then show ?case by simp
next
  case (Suc n)
  have "[c..c + int (Suc n) - 1] = [c..c + int n - 1] @ [c + int n]"
    using upto_rec2 [of c "c + int n"] by simp
  with Suc show ?case by simp
qed

lemma steps_of_epoch:
  "map (\<lambda>i. IntV (c + int i)) [0..<n] = map IntV [c..c + int n - 1]"
proof -
  have "map (\<lambda>i. IntV (c + int i)) [0..<n] = map IntV (map (\<lambda>i. c + int i) [0..<n])"
    by (simp add: comp_def)
  then show ?thesis by (simp only: map_add_int_upt)
qed

lemma steps_range:
  assumes "s \<le> E + 1"
  shows "concat (map (\<lambda>e. map (\<lambda>i. IntV ((e - 1) * int n + int i)) [0..<n]) [s..E])
           = map IntV [(s - 1) * int n..E * int n - 1]"
proof (cases "n = 0")
  case True
  then show ?thesis by (simp add: concat_map_Nil)
next
  case False
  define k where "k = nat (E + 1 - s)"
  with assms have "E = s - 1 + int k" by simp
  then show ?thesis
  proof (induction k arbitrary: E)
    case 0
    then show ?case by simp
  next
    case (Suc k)
    let ?f = "\<lambda>e. map (\<lambda>i. IntV ((e - 1) * int n + int i)) [0..<n]"
    from Suc.prems have E: "E - 1 = s - 1 + int k" and le: "s \<le> E" by simp_all
    from le have "[s..E] = [s..E - 1] @ [E]" by (rule upto_rec2)
    then have "concat (map ?f [s..E]) = concat (map ?f [s..E - 1]) @ ?f E" by simp
    also have "concat (map ?f [s..E - 1]) = map IntV [(s - 1) * int n..(E - 1) * int n - 1]"
      by (rule Suc.IH [OF E])
    also have "?f E = map IntV [(E - 1) * int n..(E - 1) * int n + int n - 1]"
      by (rule steps_of_epoch)
    also have "(E - 1) * int n + int n - 1 = E * int n - 1" by (simp add: algebra_simps)
    also have "map IntV [(s - 1) * int n..(E - 1) * int n - 1] @ map IntV [(E - 1) * int n..E * int n - 1]
                 = map IntV [(s - 1) * int n..E * int n - 1]"
    proof -
      have "(s - 1) * int n \<le> (E - 1) * int n" using le by (simp add: mult_right_mono)
      moreover have "(E - 1) * int n \<le> E * int n - 1" using False by (simp add: algebra_simps)
      ultimately have "[(s - 1) * int n..E * int n - 1]
          = [(s - 1) * int n..(E - 1) * int n - 1] @ [(E - 1) * int n..E * int n - 1]"
        by (rule upto_split1)
      then show ?thesis by simp
    qed
    finally show ?case .
  qed
qed

lemma build_logs_written [simp]:
  "written ''global_step'' (fst (build_logs v cbs m)) = []"
  "written ''train_loss_average'' (fst (build_logs v cbs m)) = []"
  "written ''valid_loss'' (fst (build_logs v cbs m)) = []"
  by (simp_all add: build_logs_def setitem_def and_then_Inr)

lemma build_logs_trace [simp]:
  "fired (fst (build_logs v cbs m)) = []"
  "epochs_run p (fst (build_logs v cbs m)) = []"
  "batch_losses p (fst (build_logs v cbs m)) = []"
  by (simp_all add: build_logs_def setitem_def and_then_Inr)

text \<open>What a run of \<^verbatim>\<open>train\<close> that returns leaves in the trace.\<close>

lemma VAE_train_observed:
  assumes "VAE_train b v L V epochs ck cbs m = (evs, Inr m')"
  shows "\<exists>l m1 s. snd (build_logs v cbs m) = Inr (m\<lparr>logs := l\<rparr>)
           \<and> start_epoch_of b ck (m\<lparr>logs := l\<rparr>) = Inr (m1, s)
           \<and> epochs_run p evs = [s..epochs]
           \<and> (cbs \<noteq> [] \<longrightarrow>
                written ''global_step'' evs
                  = concat (map (\<lambda>e. map (\<lambda>i. IntV ((e - 1) * int (length L) + int i)) [0..<length L])
                              [s..epochs])
                \<and> length (written ''train_loss_average'' evs) = length [s..epochs]
                \<and> length (written ''valid_loss'' evs) = length [s..epochs])"
proof -
  from VAE_train_succeeds [OF assms] obtain l m1 s es1 m2 es2 m3 es3 where
    bl: "snd (build_logs v cbs m) = Inr (m\<lparr>logs := l\<rparr>)"
    and st: "start_epoch_of b ck (m\<lparr>logs := l\<rparr>) = Inr (m1, s)"
    and f1: "fire cbs On_train_begin m1 = (es1, Inr m2)"
    and loop: "for_each (run_epoch b v L V cbs) [s..epochs] m2 = (es2, Inr m3)"
    and f3: "fire cbs On_train_end m3 = (es3, Inr m')"
    and evs: "evs = fst (build_logs v cbs m) @ es1 @ es2 @ es3"
    by blast
  note es1 = fire_trace [OF f1] and es3 = fire_trace [OF f3]
  have "epochs_run p evs = [s..epochs]"
    using evs es1 es3 epochs_loop_epochs_run [OF loop] by simp
  moreover have "written ''global_step'' evs
                  = concat (map (\<lambda>e. map (\<lambda>i. IntV ((e - 1) * int (length L) + int i)) [0..<length L])
                              [s..epochs])" if "cbs \<noteq> []"
    using evs es1 es3 epochs_loop_global_step [OF loop that] by simp
  moreover have "length (written ''train_loss_average'' evs) = length [s..epochs]" if "cbs \<noteq> []"
    using evs es1 es3 epochs_loop_count(1) [OF loop that] by simp
  moreover have "length (written ''valid_loss'' evs) = length [s..epochs]" if "cbs \<noteq> []"
    using evs es1 es3 epochs_loop_count(2) [OF loop that] by simp
  ultimately show ?thesis using bl st by blast
qed


subsection \<open>A run returns when no callback raises\<close>

lemma never_raises_Nil [simp]: "never_raises []"
  by (simp add: never_raises_def)

lemma fire_from_returns:
  "never_raises cbs \<Longrightarrow> snd (fire_from i cbs h m) \<noteq> Inl err"
proof (induction cbs arbitrary: i m)
  case Nil
  then show ?case by simp
next
  case (Cons c cs)
  from Cons.prems have "\<exists>m1. invoke c h m = Inr m1" and nr: "never_raises cs"
    by (simp_all add: never_raises_def)
  then obtain m1 where "invoke c h m = Inr m1" by blast
  with Cons.IH [OF nr, of "Suc i" m1] show ?case by (simp add: snd_and_then)
qed

lemma fire_returns: "never_raises cbs \<Longrightarrow> snd (fire cbs h m) \<noteq> Inl err"
  by (simp add: fire_def fire_from_returns)

lemma for_each_returns:
  assumes "\<And>a s err. snd (body a s) \<noteq> Inl err"
  shows "snd (for_each body xs s) \<noteq> Inl err"
proof (induction xs arbitrary: s)
  case Nil
  then show ?case by simp
next
  case (Cons a as)
  with assms show ?case by (simp add: snd_and_then split: sum.splits)
qed

lemma train_batch_returns:
  assumes "never_raises cbs"
  shows "snd (train_batch b v n e cbs it s) \<noteq> Inl err"
  using fire_returns [OF assms]
  by (cases it; cases s; cases "snd it")
     (simp add: snd_and_then case_prod_beta setitem_def and_then_Inr split: sum.splits)

lemma validate_batch_returns:
  assumes "never_raises cbs"
  shows "snd (validate_batch b v e cbs it s) \<noteq> Inl err"
  using fire_returns [OF assms]
  by (cases it; cases s; cases "snd it")
     (simp add: snd_and_then case_prod_beta split: sum.splits)

lemma VAE__train_returns:
  assumes "never_raises cbs" and "L \<noteq> []"
  shows "snd (VAE__train b v L e cbs m) \<noteq> Inl err"
proof
  assume "snd (VAE__train b v L e cbs m) = Inl err"
  from VAE__train_fails [OF this assms(2)] obtain x where err: "err = Callback x" by blast
  let ?loop = "for_each (train_batch b v (length L) e cbs) (enumerate 0 L)
                  (m\<lparr>torch := (torch m)\<lparr>training := True\<rparr>\<rparr>, 0, None)"
  have "snd ?loop \<noteq> Inl err"
    by (rule for_each_returns) (rule train_batch_returns [OF assms(1)])
  with \<open>snd (VAE__train b v L e cbs m) = Inl err\<close> err show False
    by (auto simp: VAE__train_result split: sum.splits option.splits if_splits)
qed

lemma VAE__validate_returns:
  assumes "never_raises cbs" and "V \<noteq> []"
  shows "snd (VAE__validate b v V e cbs m) \<noteq> Inl err"
proof
  assume a: "snd (VAE__validate b v V e cbs m) = Inl err"
  from VAE__validate_fails [OF this assms(2)] obtain x where err: "err = Callback x" by blast
  have "\<And>m1. snd (for_each (validate_batch b v e cbs) (enumerate 0 V) (m1, 0, None)) \<noteq> Inl err"
    by (rule for_each_returns) (rule validate_batch_returns [OF assms(1)])
  with a err fire_returns [OF assms(1)] show False
    by (auto simp: VAE__validate_result split: sum.splits option.splits if_splits)
qed

lemma run_epoch_returns:
  assumes "never_raises cbs" and "L \<noteq> []" and "V \<noteq> []"
  shows "snd (run_epoch b v L V cbs e m) \<noteq> Inl err"
  by (simp add: run_epoch_def snd_and_then fire_returns [OF assms(1)]
        VAE__train_returns [OF assms(1,2)] VAE__validate_returns [OF assms(1,3)]
        split: sum.splits)

lemma VAE_train_returns:
  assumes "never_raises cbs" and "L \<noteq> []" and "V \<noteq> []"
    and "\<And>l. \<exists>r. start_epoch_of b ck (m\<lparr>logs := l\<rparr>) = Inr r"
  shows "\<exists>m'. snd (VAE_train b v L V epochs ck cbs m) = Inr m'"
proof -
  obtain l where bl: "snd (build_logs v cbs m) = Inr (m\<lparr>logs := l\<rparr>)"
    using build_logs_succeeds [of v cbs m] by blast
  from assms(4) obtain r where st: "start_epoch_of b ck (m\<lparr>logs := l\<rparr>) = Inr r" by blast
  have loop: "\<And>s m2 err. snd (for_each (run_epoch b v L V cbs) [s..epochs] m2) \<noteq> Inl err"
    by (rule for_each_returns) (rule run_epoch_returns [OF assms(1,2,3)])
  have "snd (VAE_train b v L V epochs ck cbs m) \<noteq> Inl err" for err
    using bl st
    by (simp add: VAE_train_def snd_and_then case_prod_beta fire_returns [OF assms(1)] loop
          split: sum.splits)
  then show ?thesis by (cases "snd (VAE_train b v L V epochs ck cbs m)") auto
qed


subsection \<open>An empty batch source\<close>

lemma written_fire_from [simp]: "written k (fst (fire_from i cbs h m)) = []"
  by (induction cbs arbitrary: i m) (auto simp: and_then_Inr split: sum.splits)

lemma VAE__validate_empty_trace:
  "written k (fst (VAE__validate b v [] e cbs m)) = []"
  by (simp add: VAE__validate_def fst_and_then and_then_Inr fire_def raise_error_def
        split: sum.splits)

lemma run_epoch_result:
  "snd (run_epoch b v L V cbs e m) =
     (case snd (fire cbs (On_epoch_begin e) m) of
        Inl err \<Rightarrow> Inl err
      | Inr m1 \<Rightarrow>
         (case snd (VAE__train b v L e cbs m1) of
            Inl err \<Rightarrow> Inl err
          | Inr m2 \<Rightarrow>
             (case snd (VAE__validate b v V e cbs m2) of
                Inl err \<Rightarrow> Inl err
              | Inr m3 \<Rightarrow> snd (fire cbs (On_epoch_end e) m3))))"
  by (simp add: run_epoch_def snd_and_then split: sum.splits)

lemma run_epoch_fails:
  assumes "snd (run_epoch b v L V cbs e m) = Inl err" and "L \<noteq> []" and "V \<noteq> []"
  shows "\<exists>x. err = Callback x"
  using assms(1)
  by (auto simp: run_epoch_result split: sum.splits
           dest: snd_fire_fails VAE__train_fails [OF _ assms(2)] VAE__validate_fails [OF _ assms(3)])

lemma VAE__validate_empty_never_returns:
  "snd (VAE__validate b v [] e cbs m) \<noteq> Inr m'"
  using VAE__validate_empty [of b v e cbs m] by auto

lemma VAE__validate_empty_error:
  "snd (VAE__validate b v [] e cbs m) = Inl err \<Longrightarrow>
     err = Controller (UnboundLocalError ''batch_idx'') \<or> (\<exists>x. err = Callback x)"
  using VAE__validate_empty [of b v e cbs m] by auto

lemma run_epoch_empty:
  assumes "L = [] \<or> V = []"
  shows "\<exists>err. snd (run_epoch b v L V cbs e m) = Inl err
           \<and> (err = Controller (UnboundLocalError ''batch_idx'') \<or> (\<exists>x. err = Callback x))"
proof (cases "snd (fire cbs (On_epoch_begin e) m)")
  case (Inl err)
  with snd_fire_fails [OF Inl] show ?thesis by (auto simp: run_epoch_result)
next
  case m1: (Inr m1)
  show ?thesis
  proof (cases "snd (VAE__train b v L e cbs m1)")
    case (Inl err)
    show ?thesis
    proof (cases "L = []")
      case True
      with Inl m1 show ?thesis by (auto simp: run_epoch_result VAE__train_empty)
    next
      case False
      from VAE__train_fails [OF Inl False] Inl m1 show ?thesis by (auto simp: run_epoch_result)
    qed
  next
    case m2: (Inr m2)
    with assms have V: "V = []" by (auto simp: VAE__train_empty)
    show ?thesis
    proof (cases "snd (VAE__validate b v V e cbs m2)")
      case (Inl err)
      with V VAE__validate_empty_error [of b v e cbs m2 err] m1 m2 show ?thesis
        by (auto simp: run_epoch_result)
    next
      case (Inr m3)
      with V VAE__validate_empty_never_returns [of b v e cbs m2 m3] show ?thesis by simp
    qed
  qed
qed

lemma for_each_first_fails:
  assumes "\<And>a s. \<exists>err. snd (body a s) = Inl err \<and> Q err" and "xs \<noteq> []"
  shows "\<exists>err. snd (for_each body xs s) = Inl err \<and> Q err"
proof (cases xs)
  case Nil
  with assms(2) show ?thesis by simp
next
  case (Cons a as)
  from assms(1) obtain err where "snd (body a s) = Inl err" "Q err" by blast
  with Cons show ?thesis by (auto simp: snd_and_then)
qed

lemma VAE_train_result:
  assumes "snd (build_logs v cbs m) = Inr mb"
  shows "snd (VAE_train b v L V epochs ck cbs m) =
     (case start_epoch_of b ck mb of
        Inl e \<Rightarrow> Inl (Controller e)
      | Inr (m1, s) \<Rightarrow>
         (case snd (fire cbs On_train_begin m1) of
            Inl err \<Rightarrow> Inl err
          | Inr m2 \<Rightarrow>
             (case snd (for_each (run_epoch b v L V cbs) [s..epochs] m2) of
                Inl err \<Rightarrow> Inl err
              | Inr m3 \<Rightarrow> snd (fire cbs On_train_end m3))))"
  using assms
  by (simp add: VAE_train_def snd_and_then case_prod_beta split: sum.splits prod.splits)

lemma VAE_train_never_unbound:
  assumes "snd (VAE_train b v L V epochs ck cbs m) = Inl err" and "L \<noteq> []" and "V \<noteq> []"
  shows "err \<noteq> Controller (UnboundLocalError name)"
proof -
  obtain l where bl: "snd (build_logs v cbs m) = Inr (m\<lparr>logs := l\<rparr>)"
    using build_logs_succeeds [of v cbs m] by blast
  show ?thesis
  proof (cases "start_epoch_of b ck (m\<lparr>logs := l\<rparr>)")
    case (Inl e)
    with assms(1) start_epoch_of_errors [OF Inl] show ?thesis
      by (auto simp: VAE_train_result [OF bl])
  next
    case (Inr r)
    obtain m1 s where r: "r = (m1, s)" by (cases r)
    show ?thesis
    proof (cases "snd (fire cbs On_train_begin m1)")
      case (Inl err')
      with assms(1) Inr r snd_fire_fails [OF Inl] show ?thesis
        by (auto simp: VAE_train_result [OF bl])
    next
      case m2: (Inr m2)
      show ?thesis
      proof (cases "snd (for_each (run_epoch b v L V cbs) [s..epochs] m2)")
        case (Inl err')
        from snd_for_each_fails [OF Inl] obtain a s' es where
          "run_epoch b v L V cbs a s' = (es, Inl err')" by blast
        then have "snd (run_epoch b v L V cbs a s') = Inl err'" by simp
        from run_epoch_fails [OF this assms(2,3)] obtain x where "err' = Callback x" by blast
        with assms(1) Inr r m2 Inl show ?thesis
          by (auto simp: VAE_train_result [OF bl])
      next
        case m3: (Inr m3)
        with assms(1) Inr r m2 have "snd (fire cbs On_train_end m3) = Inl err"
          by (simp add: VAE_train_result [OF bl])
        from snd_fire_fails [OF this] show ?thesis by auto
      qed
    qed
  qed
qed

lemma VAE_train_empty_source:
  assumes "L = [] \<or> V = []" and "ck = None \<or> ck = Some []" and "1 \<le> epochs"
  shows "\<exists>err. snd (VAE_train b v L V epochs ck cbs m) = Inl err
           \<and> (err = Controller (UnboundLocalError ''batch_idx'') \<or> (\<exists>x. err = Callback x))"
proof -
  obtain l where bl: "snd (build_logs v cbs m) = Inr (m\<lparr>logs := l\<rparr>)"
    using build_logs_succeeds [of v cbs m] by blast
  from assms(2) have st: "start_epoch_of b ck (m\<lparr>logs := l\<rparr>) = Inr (m\<lparr>logs := l\<rparr>, 1)" by auto
  from assms(3) have ne: "[1..epochs] \<noteq> []" by (simp add: upto.simps)
  show ?thesis
  proof (cases "snd (fire cbs On_train_begin (m\<lparr>logs := l\<rparr>))")
    case (Inl err)
    with snd_fire_fails [OF Inl] show ?thesis
      by (auto simp: VAE_train_result [OF bl] st)
  next
    case (Inr m2)
    from for_each_first_fails [of "run_epoch b v L V cbs"
        "\<lambda>err. err = Controller (UnboundLocalError ''batch_idx'') \<or> (\<exists>x. err = Callback x)",
        OF run_epoch_empty [OF assms(1)] ne, of m2]
    show ?thesis using Inr by (auto simp: VAE_train_result [OF bl] st)
  qed
qed

lemma returns_Inr: "(\<And>err. r \<noteq> Inl err) \<Longrightarrow> \<exists>a. r = Inr a"
  by (cases r) auto

lemma run_epoch_empty_quiet:
  assumes "never_raises cbs" and "L = [] \<or> V = []"
  shows "snd (run_epoch b v L V cbs e m) = Inl (Controller (UnboundLocalError ''batch_idx''))"
proof -
  from returns_Inr [OF fire_returns [OF assms(1)]] obtain m1 where
    m1: "snd (fire cbs (On_epoch_begin e) m) = Inr m1" by blast
  show ?thesis
  proof (cases "L = []")
    case True
    with m1 show ?thesis by (simp add: run_epoch_result VAE__train_empty)
  next
    case False
    with assms(2) have V: "V = []" by simp
    from returns_Inr [OF VAE__train_returns [OF assms(1) False]] obtain m2 where
      m2: "snd (VAE__train b v L e cbs m1) = Inr m2" by blast
    from returns_Inr [OF fire_returns [OF assms(1)]] obtain m3 where
      "snd (fire cbs (On_validation_begin e) (m2\<lparr>torch := (torch m2)\<lparr>training := False\<rparr>\<rparr>)) = Inr m3"
      by blast
    then have "snd (VAE__validate b v [] e cbs m2) = Inl (Controller (UnboundLocalError ''batch_idx''))"
      by (simp add: VAE__validate_result)
    with m1 m2 V show ?thesis by (simp add: run_epoch_result)
  qed
qed

lemma VAE_train_empty_source_quiet:
  assumes "never_raises cbs" and "L = [] \<or> V = []" and "1 \<le> epochs"
  shows "snd (VAE_train b v L V epochs None cbs m) = Inl (Controller (UnboundLocalError ''batch_idx''))"
proof -
  obtain l where bl: "snd (build_logs v cbs m) = Inr (m\<lparr>logs := l\<rparr>)"
    using build_logs_succeeds [of v cbs m] by blast
  from returns_Inr [OF fire_returns [OF assms(1)]] obtain m2 where
    m2: "snd (fire cbs On_train_begin (m\<lparr>logs := l\<rparr>)) = Inr m2" by blast
  from assms(3) have ne: "[1..epochs] \<noteq> []" by (simp add: upto.simps)
  from for_each_first_fails [of "run_epoch b v L V cbs"
        "\<lambda>err. err = Controller (UnboundLocalError ''batch_idx'')", OF _ ne, of m2]
    run_epoch_empty_quiet [OF assms(1,2)]
  have "snd (for_each (run_epoch b v L V cbs) [1..epochs] m2)
          = Inl (Controller (UnboundLocalError ''batch_idx''))"
    by auto
  with m2 show ?thesis by (simp add: VAE_train_result [OF bl])
qed


subsection \<open>Callbacks that leave the machine alone inside an epoch\<close>

lemma fire_from_unchanged:
  "(\<And>c. c \<in> set cbs \<Longrightarrow> invoke c h m = Inr m) \<Longrightarrow> snd (fire_from i cbs h m) = Inr m"
  by (induction cbs arbitrary: i) (simp_all add: snd_and_then)

lemma fire_quiet:
  "quiet_within_epoch cbs \<Longrightarrow> within_epoch h \<Longrightarrow> snd (fire cbs h m) = Inr m"
  unfolding fire_def by (rule fire_from_unchanged) (simp add: quiet_within_epoch_def)

lemma fire_quiet_result:
  assumes "fire cbs h m = (es, Inr m')" and "quiet_within_epoch cbs" and "within_epoch h"
  shows "m' = m"
  using fire_quiet [OF assms(2,3), of m] assms(1) by simp

lemma for_each_invariant:
  assumes "for_each body xs s = (evs, Inr s')" and "I s"
    and "\<And>a s es s'. body a s = (es, Inr s') \<Longrightarrow> I s \<Longrightarrow> I s'"
  shows "I s'"
  using assms(1,2)
proof (induction xs arbitrary: s evs)
  case Nil
  then show ?case by simp
next
  case (Cons a as)
  from Cons.prems(1) obtain es s1 es' where
    "body a s = (es, Inr s1)" "for_each body as s1 = (es', Inr s')"
    by (auto simp: and_then_succeeds)
  with Cons.IH [of s1 es'] assms(3) [of a s es s1] Cons.prems(2) show ?case by blast
qed

lemma train_batch_quiet:
  assumes "train_batch b v n e cbs it s = (es, Inr s')" and "quiet_within_epoch cbs"
  shows "world (fst s') = world (fst s)"
proof -
  obtain i x rmsd fnc index where it: "it = (i, (x, rmsd, fnc, index))" by (cases it) auto
  obtain m acc u where s: "s = (m, acc, u)" by (cases s) auto
  from assms(1) have "snd (train_batch b v n e cbs it s) = Inr s'" by simp
  then show ?thesis
    by (simp add: it s snd_and_then fire_quiet [OF assms(2)] case_prod_beta setitem_def
          and_then_Inr split: if_splits) auto
qed

lemma validate_batch_quiet:
  assumes "validate_batch b v e cbs it s = (es, Inr s')" and "quiet_within_epoch cbs"
  shows "world (fst s') = world (fst s) \<and> logs (fst s') = logs (fst s)"
proof -
  obtain i x rmsd fnc index where it: "it = (i, (x, rmsd, fnc, index))" by (cases it) auto
  obtain m acc u where s: "s = (m, acc, u)" by (cases s) auto
  from assms(1) have "snd (validate_batch b v e cbs it s) = Inr s'" by simp
  then show ?thesis
    by (simp add: it s snd_and_then fire_quiet [OF assms(2)] case_prod_beta and_then_Inr) auto
qed

lemma VAE__train_quiet:
  assumes "VAE__train b v L e cbs m = (evs, Inr m')" and "quiet_within_epoch cbs"
  shows "world m' = world m"
proof -
  from VAE__train_succeeds [OF assms(1)] obtain es m1 acc where
    loop: "for_each (train_batch b v (length L) e cbs) (enumerate 0 L)
        (m\<lparr>torch := (torch m)\<lparr>training := True\<rparr>\<rparr>, 0, None) = (es, Inr (m1, acc, Some (length L - 1)))"
    and m': "m' = (if cbs \<noteq> []
               then m1\<lparr>logs := AList.update ''train_loss_average''
                        (FloatV (acc / real (length L))) (logs m1)\<rparr>
               else m1)"
    by blast
  have "world (fst (m1, acc, Some (length L - 1))) = world m"
    by (rule for_each_invariant [OF loop]) (simp_all add: train_batch_quiet [OF _ assms(2)])
  with m' show ?thesis by simp
qed

lemma VAE__validate_quiet:
  assumes "VAE__validate b v V e cbs m = (evs, Inr m')" and "quiet_within_epoch cbs"
  shows "world m' = world m"
    and "k \<noteq> ''valid_loss'' \<Longrightarrow> map_of (logs m') k = map_of (logs m) k"
    and "cbs \<noteq> [] \<Longrightarrow> map_of (logs m') ''valid_loss''
           = Some (FloatV (sum_list (batch_losses Validation evs) / real (length V)))"
proof -
  from VAE__validate_succeeds [OF assms(1)] obtain es0 m1 es m2 acc es3 where
    f0: "fire cbs (On_validation_begin e) (m\<lparr>torch := (torch m)\<lparr>training := False\<rparr>\<rparr>) = (es0, Inr m1)"
    and loop: "for_each (validate_batch b v e cbs) (enumerate 0 V) (m1, 0, None)
           = (es, Inr (m2, acc, Some (length V - 1)))"
    and f3: "fire cbs (On_validation_end e)
           (if cbs \<noteq> []
            then m2\<lparr>logs := AList.update ''valid_loss'' (FloatV (acc / real (length V))) (logs m2)\<rparr>
            else m2) = (es3, Inr m')"
    and evs: "evs = Pass Validation e # es0 @ es
                @ (if cbs \<noteq> [] then [Wrote ''valid_loss'' (FloatV (acc / real (length V)))] else [])
                @ es3"
    by blast
  from fire_quiet_result [OF f0 assms(2)] have m1: "m1 = m\<lparr>torch := (torch m)\<lparr>training := False\<rparr>\<rparr>"
    by simp
  have "world (fst (m2, acc, Some (length V - 1))) = world m1
          \<and> logs (fst (m2, acc, Some (length V - 1))) = logs m1"
    by (rule for_each_invariant [OF loop]) (simp_all add: validate_batch_quiet [OF _ assms(2)])
  with m1 have m2: "world m2 = world m" "logs m2 = logs m" by simp_all
  from fire_quiet_result [OF f3 assms(2)] have m': "m' = (if cbs \<noteq> []
            then m2\<lparr>logs := AList.update ''valid_loss'' (FloatV (acc / real (length V))) (logs m2)\<rparr>
            else m2)" by simp
  from m' m2 show "world m' = world m" by simp
  from m' m2 show "k \<noteq> ''valid_loss'' \<Longrightarrow> map_of (logs m') k = map_of (logs m) k"
    by (simp add: update_conv')
  from VAE__validate_observed(4) [OF assms(1)] evs fire_trace [OF f0] fire_trace [OF f3]
  have "cbs \<noteq> [] \<Longrightarrow> FloatV (acc / real (length V))
            = FloatV (sum_list (batch_losses Validation evs) / real (length V))"
    by (simp split: if_splits) 
  with m' show "cbs \<noteq> [] \<Longrightarrow> map_of (logs m') ''valid_loss''
           = Some (FloatV (sum_list (batch_losses Validation evs) / real (length V)))"
    by (simp add: update_conv')
qed


subsection \<open>The loss of a batch\<close>








subsection \<open>The mixed-precision step\<close>

lemma take_optimizer_step_scale [simp]:
  "scale (take_optimizer_step b g ts) = scale ts"
  by (simp add: take_optimizer_step_def split: prod.splits)






subsection \<open>The global step\<close>

lemma invoke_noop [simp]: "invoke noop_callback h m = Inr m"
  by (cases h) (simp_all add: noop_callback_def)

lemma never_raises_quiet: "never_raises [quiet_callback]"
  by (simp add: never_raises_def quiet_callback_def)

lemma toy_loader_not_Nil [simp]: "toy_loader (Suc n) \<noteq> []" "toy_loader (numeral k) \<noteq> []"
  by (simp_all add: toy_loader_def)

lemma length_toy_loader [simp]: "length (toy_loader n) = n"
  by (simp add: toy_loader_def)

lemma upto_append: "i \<le> j + 1 \<Longrightarrow> j \<le> k \<Longrightarrow> [i..j] @ [j + 1..k] = [i..k]"
proof (cases "j + 1 \<le> k")
  case True
  assume "i \<le> j + 1"
  from upto_split1 [OF this True] show ?thesis by simp
next
  case False
  assume "j \<le> k"
  with False have "j = k" by simp
  then show ?thesis by simp
qed

text \<open>
  Claim C7. With at least one callback attached, every training batch that completes
  writes \<^verbatim>\<open>logs["global_step"] = (epoch - 1) * num_batches + batch_idx\<close> once, where
  \<open>batch_idx\<close> counts from \<open>0\<close> and \<open>num_batches\<close> is the length of the training batch
  source; so a training pass writes the steps of its epoch in order, a run of \<open>epochs\<close>
  epochs that returns writes exactly \<open>0, \<dots>, epochs * num_batches - 1\<close>, and a run of
  2 epochs over a source of 10 batches writes exactly \<open>0, \<dots>, 19\<close>.
\<close>

theorem global_step_values:
  "(train_batch b v n epoch cbs (batch_idx, tok) s = (evs, Inr s') \<longrightarrow> cbs \<noteq> [] \<longrightarrow>
      written ''global_step'' evs = [IntV ((epoch - 1) * int n + int batch_idx)])
   \<and> (VAE__train b v L epoch cbs m = (evs, Inr m') \<longrightarrow> cbs \<noteq> [] \<longrightarrow>
        written ''global_step'' evs
          = map (\<lambda>i. IntV ((epoch - 1) * int (length L) + int i)) [0..<length L])
   \<and> (VAE_train b v L V epochs None cbs m = (evs, Inr m') \<longrightarrow> cbs \<noteq> [] \<longrightarrow>
        written ''global_step'' evs = map IntV [0..epochs * int (length L) - 1])
   \<and> (VAE_train b v L V 2 None cbs m = (evs, Inr m') \<longrightarrow> cbs \<noteq> [] \<longrightarrow> length L = 10 \<longrightarrow>
        written ''global_step'' evs = map IntV [0..19])"
proof (intro conjI impI)
  assume "train_batch b v n epoch cbs (batch_idx, tok) s = (evs, Inr s')" and "cbs \<noteq> []"
  then show "written ''global_step'' evs = [IntV ((epoch - 1) * int n + int batch_idx)]"
    using train_batch_global_step [of b v n epoch cbs "(batch_idx, tok)" s evs s'] by simp
next
  assume "VAE__train b v L epoch cbs m = (evs, Inr m')" and "cbs \<noteq> []"
  then show "written ''global_step'' evs
          = map (\<lambda>i. IntV ((epoch - 1) * int (length L) + int i)) [0..<length L]"
    using VAE__train_observed(2) [of b v L epoch cbs m evs m'] by simp
next
  fix E :: int
  have general: "written ''global_step'' evs = map IntV [0..E * int (length L) - 1]"
    if run: "VAE_train b v L V E None cbs m = (evs, Inr m')" and cbs: "cbs \<noteq> []" for E
  proof -
    from VAE_train_observed [OF run, of Training] cbs
    have "written ''global_step'' evs
            = concat (map (\<lambda>e. map (\<lambda>i. IntV ((e - 1) * int (length L) + int i)) [0..<length L])
                        [1..E])"
      by auto
    also have "\<dots> = map IntV [(1 - 1) * int (length L)..E * int (length L) - 1]"
    proof (cases "1 \<le> E + 1")
      case True
      then show ?thesis by (rule steps_range)
    next
      case False
      then have "E \<le> 0" by simp
      then have "E * int (length L) \<le> 0" by (simp add: mult_nonpos_nonneg)
      then have "E * int (length L) - 1 < 0" by simp
      with False show ?thesis by simp
    qed
    finally show ?thesis by simp
  qed
  {
    assume "VAE_train b v L V epochs None cbs m = (evs, Inr m')" and "cbs \<noteq> []"
    then show "written ''global_step'' evs = map IntV [0..epochs * int (length L) - 1]"
      by (rule general)
  next
    assume "VAE_train b v L V 2 None cbs m = (evs, Inr m')" and "cbs \<noteq> []" and "length L = 10"
    with general [of 2] show "written ''global_step'' evs = map IntV [0..19]" by simp
  }
qed

lemma toy_run_returns:
  "\<exists>m'. VAE_train toy_backend default_vae (toy_loader 10) (toy_loader 4) 2 None [quiet_callback]
           (toy_machine ())
         = (fst (VAE_train toy_backend default_vae (toy_loader 10) (toy_loader 4) 2 None
                   [quiet_callback] (toy_machine ())), Inr m')"
proof -
  from VAE_train_returns [OF never_raises_quiet, of "toy_loader 10" "toy_loader 4" toy_backend None
      "toy_machine ()" default_vae 2]
  obtain m' where "snd (VAE_train toy_backend default_vae (toy_loader 10) (toy_loader 4) 2 None
                   [quiet_callback] (toy_machine ())) = Inr m'"
    by auto
  then show ?thesis by (auto simp: prod_eq_iff)
qed

theorem global_step_values_witness:
  "written ''global_step''
     (fst (VAE_train toy_backend default_vae (toy_loader 10) (toy_loader 4) 2 None [quiet_callback]
             (toy_machine ())))
     = map IntV [0..19]"
proof -
  from toy_run_returns obtain m' where
    run: "VAE_train toy_backend default_vae (toy_loader 10) (toy_loader 4) 2 None [quiet_callback]
           (toy_machine ())
         = (fst (VAE_train toy_backend default_vae (toy_loader 10) (toy_loader 4) 2 None
                   [quiet_callback] (toy_machine ())), Inr m')"
    by blast
  from global_step_values [THEN conjunct2, THEN conjunct2, THEN conjunct2, rule_format, OF run]
  show ?thesis by simp
qed


subsection \<open>The loop variable of an empty pass\<close>

text \<open>
  Claim C10. A training pass over a batch source that yields no batch raises
  \<^verbatim>\<open>UnboundLocalError\<close> for \<^verbatim>\<open>batch_idx\<close> as soon as it is entered, and a validation pass
  over an empty source raises it once the \<^verbatim>\<open>on_validation_begin\<close> hooks have run (unless
  one of them raised first), in either case without logging an average; so a run of at
  least one epoch with an empty source never returns, and ends with that error when no
  callback raises. When a source yields at least one batch, its pass never raises an
  \<^verbatim>\<open>UnboundLocalError\<close>, and with both sources non-empty neither does \<^verbatim>\<open>train\<close>.
\<close>

theorem empty_batch_source_unbound_batch_idx:
  "VAE__train b v [] epoch cbs m
     = ([Pass Training epoch], Inl (Controller (UnboundLocalError ''batch_idx'')))
   \<and> (\<exists>err. snd (VAE__validate b v [] epoch cbs m) = Inl err
          \<and> (err = Controller (UnboundLocalError ''batch_idx'') \<or> (\<exists>x. err = Callback x)))
   \<and> written ''valid_loss'' (fst (VAE__validate b v [] epoch cbs m)) = []
   \<and> ((L = [] \<or> V = []) \<longrightarrow> 1 \<le> epochs \<longrightarrow>
        (\<exists>err. snd (VAE_train b v L V epochs None cbs m) = Inl err
           \<and> (err = Controller (UnboundLocalError ''batch_idx'') \<or> (\<exists>x. err = Callback x))))
   \<and> ((L = [] \<or> V = []) \<longrightarrow> 1 \<le> epochs \<longrightarrow> never_raises cbs \<longrightarrow>
        snd (VAE_train b v L V epochs None cbs m)
          = Inl (Controller (UnboundLocalError ''batch_idx'')))
   \<and> (L \<noteq> [] \<longrightarrow> snd (VAE__train b v L epoch cbs m) \<noteq> Inl (Controller (UnboundLocalError name)))
   \<and> (V \<noteq> [] \<longrightarrow> snd (VAE__validate b v V epoch cbs m) \<noteq> Inl (Controller (UnboundLocalError name)))
   \<and> (L \<noteq> [] \<longrightarrow> V \<noteq> [] \<longrightarrow>
        snd (VAE_train b v L V epochs ck cbs m) \<noteq> Inl (Controller (UnboundLocalError name)))"
proof (intro conjI impI)
  show "VAE__train b v [] epoch cbs m
     = ([Pass Training epoch], Inl (Controller (UnboundLocalError ''batch_idx'')))"
    by (rule VAE__train_empty)
  show "\<exists>err. snd (VAE__validate b v [] epoch cbs m) = Inl err
          \<and> (err = Controller (UnboundLocalError ''batch_idx'') \<or> (\<exists>x. err = Callback x))"
    by (rule VAE__validate_empty)
  show "written ''valid_loss'' (fst (VAE__validate b v [] epoch cbs m)) = []"
    by (rule VAE__validate_empty_trace)
next
  assume "L = [] \<or> V = []" and "1 \<le> epochs"
  then show "\<exists>err. snd (VAE_train b v L V epochs None cbs m) = Inl err
           \<and> (err = Controller (UnboundLocalError ''batch_idx'') \<or> (\<exists>x. err = Callback x))"
    by (intro VAE_train_empty_source) simp_all
next
  assume "L = [] \<or> V = []" and "1 \<le> epochs" and "never_raises cbs"
  then show "snd (VAE_train b v L V epochs None cbs m)
          = Inl (Controller (UnboundLocalError ''batch_idx''))"
    by (intro VAE_train_empty_source_quiet)
next
  assume "L \<noteq> []"
  show "snd (VAE__train b v L epoch cbs m) \<noteq> Inl (Controller (UnboundLocalError name))"
  proof
    assume "snd (VAE__train b v L epoch cbs m) = Inl (Controller (UnboundLocalError name))"
    from VAE__train_fails [OF this \<open>L \<noteq> []\<close>] show False by simp
  qed
next
  assume "V \<noteq> []"
  show "snd (VAE__validate b v V epoch cbs m) \<noteq> Inl (Controller (UnboundLocalError name))"
  proof
    assume "snd (VAE__validate b v V epoch cbs m) = Inl (Controller (UnboundLocalError name))"
    from VAE__validate_fails [OF this \<open>V \<noteq> []\<close>] show False by simp
  qed
next
  assume "L \<noteq> []" and "V \<noteq> []"
  show "snd (VAE_train b v L V epochs ck cbs m) \<noteq> Inl (Controller (UnboundLocalError name))"
  proof
    assume "snd (VAE_train b v L V epochs ck cbs m) = Inl (Controller (UnboundLocalError name))"
    from VAE_train_never_unbound [OF this \<open>L \<noteq> []\<close> \<open>V \<noteq> []\<close>, of name] show False by simp
  qed
qed

theorem empty_batch_source_unbound_batch_idx_witness:
  "snd (VAE_train toy_backend default_vae [] (toy_loader 4) 2 None [quiet_callback] (toy_machine ()))
     = Inl (Controller (UnboundLocalError ''batch_idx''))
   \<and> snd (VAE_train toy_backend default_vae (toy_loader 10) [] 2 None [quiet_callback]
            (toy_machine ()))
     = Inl (Controller (UnboundLocalError ''batch_idx''))
   \<and> (\<exists>m'. snd (VAE_train toy_backend default_vae (toy_loader 10) (toy_loader 4) 2 None
                  [quiet_callback] (toy_machine ())) = Inr m')"
proof -
  note th = empty_batch_source_unbound_batch_idx
  have two: "(1::int) \<le> 2" by simp
  have a: "snd (VAE_train toy_backend default_vae [] (toy_loader 4) 2 None [quiet_callback]
                 (toy_machine ())) = Inl (Controller (UnboundLocalError ''batch_idx''))"
    using th [of toy_backend default_vae 1 "[quiet_callback]" "toy_machine ()" "[]" "toy_loader 4" 2
              "''batch_idx''" None, THEN conjunct2, THEN conjunct2, THEN conjunct2, THEN conjunct2,
              THEN conjunct1, rule_format, OF _ two never_raises_quiet]
    by simp
  have b: "snd (VAE_train toy_backend default_vae (toy_loader 10) [] 2 None [quiet_callback]
                 (toy_machine ())) = Inl (Controller (UnboundLocalError ''batch_idx''))"
    using th [of toy_backend default_vae 1 "[quiet_callback]" "toy_machine ()" "toy_loader 10" "[]" 2
              "''batch_idx''" None, THEN conjunct2, THEN conjunct2, THEN conjunct2, THEN conjunct2,
              THEN conjunct1, rule_format, OF _ two never_raises_quiet]
    by simp
  from toy_run_returns have c: "\<exists>m'. snd (VAE_train toy_backend default_vae (toy_loader 10)
      (toy_loader 4) 2 None [quiet_callback] (toy_machine ())) = Inr m'"
    by (metis snd_conv)
  from a b c show ?thesis by blast
qed


subsection \<open>Resuming from a checkpoint\<close>

lemma build_logs_references:
  "snd (build_logs v cbs m) = Inr (m\<lparr>logs := l\<rparr>) \<Longrightarrow> cbs \<noteq> [] \<Longrightarrow>
     map_of l ''model'' = Some (ObjRef (handle v))
     \<and> map_of l ''optimizer'' = Some (ObjRef (optimizer_id v))"
proof -
  assume a: "snd (build_logs v cbs m) = Inr (m\<lparr>logs := l\<rparr>)" and c: "cbs \<noteq> []"
  from c have "snd (build_logs v cbs m)
      = Inr (m\<lparr>logs := (if dist_initialized v
         then [(''model'', ObjRef (handle v)), (''optimizer'', ObjRef (optimizer_id v)),
               (''comm_size'', IntV (comm_size v))]
         else [(''model'', ObjRef (handle v)), (''optimizer'', ObjRef (optimizer_id v))])\<rparr>)"
    by (auto simp: build_logs_def setitem_def and_then_Inr split: if_splits)
  with a have "m\<lparr>logs := l\<rparr> = m\<lparr>logs := (if dist_initialized v
         then [(''model'', ObjRef (handle v)), (''optimizer'', ObjRef (optimizer_id v)),
               (''comm_size'', IntV (comm_size v))]
         else [(''model'', ObjRef (handle v)), (''optimizer'', ObjRef (optimizer_id v))])\<rparr>"
    by simp
  from arg_cong [OF this, of logs] show ?thesis by (simp split: if_splits)
qed

lemma quiet_run_returns:
  assumes "L \<noteq> []" and "V \<noteq> []"
    and "\<And>l. \<exists>r. start_epoch_of b ck (m\<lparr>logs := l\<rparr>) = Inr r"
  shows "\<exists>m'. VAE_train b v L V epochs ck [quiet_callback] m
            = (fst (VAE_train b v L V epochs ck [quiet_callback] m), Inr m')"
proof -
  from VAE_train_returns [OF never_raises_quiet assms, of v epochs]
  obtain m' where "snd (VAE_train b v L V epochs ck [quiet_callback] m) = Inr m'" by blast
  then show ?thesis by (auto simp: prod_eq_iff)
qed

lemma toy_checkpoint_loads:
  "VAE__load_checkpoint (backend_with_file path (toy_checkpoint e)) path m = Inr (m, IntItem e)"
  by (simp add: VAE__load_checkpoint_def backend_with_file_def toy_checkpoint_def toy_backend_def
        getitem_def restore_def)

lemma toy_checkpoint_start:
  "path \<noteq> [] \<Longrightarrow>
     start_epoch_of (backend_with_file path (toy_checkpoint e)) (Some path) m = Inr (m, 1 + e)"
  by (simp add: start_epoch_of_some toy_checkpoint_loads)

lemma backend_with_file_load [simp]:
  "torch_load (backend_with_file path cp) path = Some cp"
  by (simp add: backend_with_file_def)

lemma toy_checkpoint_epoch [simp]:
  "map_of (toy_checkpoint e) ''epoch'' = Some (IntItem e)"
  by (simp add: toy_checkpoint_def)

text \<open>
  Claim C1. A run of \<^verbatim>\<open>train\<close> that returns and was given no checkpoint (or an empty path)
  ran the epochs \<open>1..epochs\<close>. A run that returns and was given the path of a checkpoint
  read a file recording an epoch \<open>e\<close>, ran the epochs \<open>e + 1..epochs\<close>, and started them
  on the machine \<^verbatim>\<open>_load_checkpoint\<close> left: the encoder, the decoder and the optimizer are
  the results of \<^verbatim>\<open>load_state_dict\<close> on the objects that were there, with the stored state
  dicts, and \<^verbatim>\<open>logs\<close> still refers to the same model and optimizer objects. So a run of
  \<open>E1\<close> epochs followed by a run to \<open>E\<close> resumed from a checkpoint of epoch \<open>E1\<close> runs
  the epochs \<open>1..E\<close>, as a single run of \<open>E\<close> epochs does, and both end with epoch \<open>E\<close>.
\<close>

theorem resume_continues_epoch_sequence:
  "(VAE_train b v L V epochs ck cbs m = (evs, Inr m') \<longrightarrow> ck = None \<or> ck = Some [] \<longrightarrow>
      epochs_run p evs = [1..epochs])
   \<and> (VAE_train b v L V epochs (Some path) cbs m = (evs, Inr m') \<longrightarrow> path \<noteq> [] \<longrightarrow>
        (\<exists>cp e l m1 sd_e sd_d sd_o es1 m2.
            torch_load b path = Some cp \<and> map_of cp ''epoch'' = Some (IntItem e)
          \<and> epochs_run p evs = [e + 1..epochs]
          \<and> snd (build_logs v cbs m) = Inr (m\<lparr>logs := l\<rparr>)
          \<and> VAE__load_checkpoint b path (m\<lparr>logs := l\<rparr>) = Inr (m1, IntItem e)
          \<and> fire cbs On_train_begin m1 = (es1, Inr m2)
          \<and> map_of cp ''encoder_state_dict'' = Some (StateDict sd_e)
          \<and> load_state_dict b (encoder (torch m)) sd_e = Some (encoder (torch m1))
          \<and> map_of cp ''decoder_state_dict'' = Some (StateDict sd_d)
          \<and> load_state_dict b (decoder (torch m)) sd_d = Some (decoder (torch m1))
          \<and> map_of cp ''optimizer_state_dict'' = Some (StateDict sd_o)
          \<and> optimizer_load_state_dict b (optimizer (torch m)) sd_o = Some (optimizer (torch m1))
          \<and> logs m1 = l \<and> world m1 = world m
          \<and> (cbs \<noteq> [] \<longrightarrow> map_of (logs m1) ''model'' = Some (ObjRef (handle v))
                \<and> map_of (logs m1) ''optimizer'' = Some (ObjRef (optimizer_id v)))))
   \<and> (VAE_train b v L V E1 None cbs ma = (evs1, Inr ma') \<longrightarrow>
       VAE_train b v L V E (Some path) cbs mb = (evs2, Inr mb') \<longrightarrow>
       VAE_train b v L V E None cbs mc = (evs3, Inr mc') \<longrightarrow>
       path \<noteq> [] \<longrightarrow> torch_load b path = Some cp \<longrightarrow> map_of cp ''epoch'' = Some (IntItem E1) \<longrightarrow>
       0 \<le> E1 \<longrightarrow> E1 \<le> E \<longrightarrow>
         epochs_run p evs1 = [1..E1] \<and> epochs_run p evs2 = [E1 + 1..E]
         \<and> epochs_run p evs1 @ epochs_run p evs2 = epochs_run p evs3
         \<and> epochs_run p evs3 = [1..E]
         \<and> (1 \<le> E \<longrightarrow> last (epochs_run p evs1 @ epochs_run p evs2) = E
                \<and> last (epochs_run p evs3) = E))"
proof -
  have fresh: "epochs_run p evs = [1..epochs]"
    if "VAE_train b v L V epochs ck cbs m = (evs, Inr m')" and "ck = None \<or> ck = Some []"
    for epochs ck m evs m'
  proof -
    from VAE_train_observed [OF that(1), of p] that(2) show ?thesis by auto
  qed
  have resumed: "\<exists>cp e l m1 sd_e sd_d sd_o es1 m2.
            torch_load b path = Some cp \<and> map_of cp ''epoch'' = Some (IntItem e)
          \<and> epochs_run p evs = [e + 1..epochs]
          \<and> snd (build_logs v cbs m) = Inr (m\<lparr>logs := l\<rparr>)
          \<and> VAE__load_checkpoint b path (m\<lparr>logs := l\<rparr>) = Inr (m1, IntItem e)
          \<and> fire cbs On_train_begin m1 = (es1, Inr m2)
          \<and> map_of cp ''encoder_state_dict'' = Some (StateDict sd_e)
          \<and> load_state_dict b (encoder (torch m)) sd_e = Some (encoder (torch m1))
          \<and> map_of cp ''decoder_state_dict'' = Some (StateDict sd_d)
          \<and> load_state_dict b (decoder (torch m)) sd_d = Some (decoder (torch m1))
          \<and> map_of cp ''optimizer_state_dict'' = Some (StateDict sd_o)
          \<and> optimizer_load_state_dict b (optimizer (torch m)) sd_o = Some (optimizer (torch m1))
          \<and> logs m1 = l \<and> world m1 = world m
          \<and> (cbs \<noteq> [] \<longrightarrow> map_of (logs m1) ''model'' = Some (ObjRef (handle v))
                \<and> map_of (logs m1) ''optimizer'' = Some (ObjRef (optimizer_id v)))"
    if run: "VAE_train b v L V epochs (Some path) cbs m = (evs, Inr m')" and path: "path \<noteq> []"
    for epochs m evs m'
  proof -
    from VAE_train_succeeds [OF run] obtain l m1 s es1 m2 es2 m3 es3 where
      bl: "snd (build_logs v cbs m) = Inr (m\<lparr>logs := l\<rparr>)"
      and st: "start_epoch_of b (Some path) (m\<lparr>logs := l\<rparr>) = Inr (m1, s)"
      and f1: "fire cbs On_train_begin m1 = (es1, Inr m2)"
      and loop: "for_each (run_epoch b v L V cbs) [s..epochs] m2 = (es2, Inr m3)"
      and f3: "fire cbs On_train_end m3 = (es3, Inr m')"
      and evs: "evs = fst (build_logs v cbs m) @ es1 @ es2 @ es3"
      by blast
    from start_epoch_of_resumes [OF st path] obtain e where
      ld: "VAE__load_checkpoint b path (m\<lparr>logs := l\<rparr>) = Inr (m1, IntItem e)" and s: "s = e + 1"
      by blast
    have ep: "epochs_run p evs = [e + 1..epochs]"
      using evs fire_trace [OF f1] fire_trace [OF f3] epochs_loop_epochs_run [OF loop] s by simp
    from load_checkpoint_frame [OF ld] obtain cp sd_e sd_d sd_o where
      "torch_load b path = Some cp" "map_of cp ''epoch'' = Some (IntItem e)"
      "map_of cp ''encoder_state_dict'' = Some (StateDict sd_e)"
      "load_state_dict b (encoder (torch m)) sd_e = Some (encoder (torch m1))"
      "map_of cp ''decoder_state_dict'' = Some (StateDict sd_d)"
      "load_state_dict b (decoder (torch m)) sd_d = Some (decoder (torch m1))"
      "map_of cp ''optimizer_state_dict'' = Some (StateDict sd_o)"
      "optimizer_load_state_dict b (optimizer (torch m)) sd_o = Some (optimizer (torch m1))"
      "logs m1 = l" "world m1 = world m"
      by auto
    with ep bl ld f1 build_logs_references [OF bl] show ?thesis by blast
  qed
  have equiv: "epochs_run p evs1 = [1..E1] \<and> epochs_run p evs2 = [E1 + 1..E]
         \<and> epochs_run p evs1 @ epochs_run p evs2 = epochs_run p evs3
         \<and> epochs_run p evs3 = [1..E]
         \<and> (1 \<le> E \<longrightarrow> last (epochs_run p evs1 @ epochs_run p evs2) = E
                \<and> last (epochs_run p evs3) = E)"
    if r1: "VAE_train b v L V E1 None cbs ma = (evs1, Inr ma')"
      and r2: "VAE_train b v L V E (Some path) cbs mb = (evs2, Inr mb')"
      and r3: "VAE_train b v L V E None cbs mc = (evs3, Inr mc')"
      and path: "path \<noteq> []" and cp: "torch_load b path = Some cp"
      "map_of cp ''epoch'' = Some (IntItem E1)" and le: "0 \<le> E1" "E1 \<le> E"
  proof -
    from fresh [OF r1] have e1: "epochs_run p evs1 = [1..E1]" by simp
    from fresh [OF r3] have e3: "epochs_run p evs3 = [1..E]" by simp
    from resumed [OF r2 path] cp have e2: "epochs_run p evs2 = [E1 + 1..E]" by auto
    from le have cat: "[1..E1] @ [E1 + 1..E] = [1..E]" by (intro upto_append) simp_all
    have "last [1..E] = E" if "1 \<le> E"
      using that upto_rec2 [of 1 E] by simp
    with e1 e2 e3 cat show ?thesis by simp
  qed
  from fresh resumed equiv show ?thesis by blast
qed

theorem resume_continues_epoch_sequence_witness:
  "epochs_run Training
     (fst (VAE_train (backend_with_file ''epoch-3.pt'' (toy_checkpoint 3)) default_vae
             (toy_loader 10) (toy_loader 4) 3 None [quiet_callback] (toy_machine ())))
     = [1, 2, 3]
   \<and> epochs_run Training
     (fst (VAE_train (backend_with_file ''epoch-3.pt'' (toy_checkpoint 3)) default_vae
             (toy_loader 10) (toy_loader 4) 5 (Some ''epoch-3.pt'') [quiet_callback]
             (toy_machine ())))
     = [4, 5]
   \<and> epochs_run Training
     (fst (VAE_train (backend_with_file ''epoch-3.pt'' (toy_checkpoint 3)) default_vae
             (toy_loader 10) (toy_loader 4) 5 None [quiet_callback] (toy_machine ())))
     = [1, 2, 3, 4, 5]"
proof -
  let ?b = "backend_with_file ''epoch-3.pt'' (toy_checkpoint 3) :: (unit, unit, bool) backend"
  let ?run = "\<lambda>E ck. VAE_train ?b default_vae (toy_loader 10) (toy_loader 4) E ck
                 [quiet_callback] (toy_machine ())"
  have none: "\<And>l. \<exists>r. start_epoch_of ?b None ((toy_machine ())\<lparr>logs := l\<rparr>) = Inr r"
    by simp
  have some: "\<And>l. \<exists>r. start_epoch_of ?b (Some ''epoch-3.pt'') ((toy_machine ())\<lparr>logs := l\<rparr>) = Inr r"
    by (simp add: toy_checkpoint_start)
  from quiet_run_returns [OF toy_loader_not_Nil(2) toy_loader_not_Nil(2) none, where v = default_vae and epochs = 3]
  obtain m1 where r1: "?run 3 None = (fst (?run 3 None), Inr m1)" by blast
  from quiet_run_returns [OF toy_loader_not_Nil(2) toy_loader_not_Nil(2) some, where v = default_vae and epochs = 5]
  obtain m2 where r2: "?run 5 (Some ''epoch-3.pt'') = (fst (?run 5 (Some ''epoch-3.pt'')), Inr m2)"
    by blast
  from quiet_run_returns [OF toy_loader_not_Nil(2) toy_loader_not_Nil(2) none, where v = default_vae and epochs = 5]
  obtain m3 where r3: "?run 5 None = (fst (?run 5 None), Inr m3)" by blast
  have up: "[1..3] = [1, 2, 3::int]" "[4..5] = [4, 5::int]" "[1..5] = [1, 2, 3, 4, 5::int]"
    by (simp_all add: upto_rec1)
  from resume_continues_epoch_sequence [THEN conjunct2, THEN conjunct2, rule_format,
      OF r1 r2 r3, of "toy_checkpoint 3" Training]
  show ?thesis by (simp add: up)
qed


subsection \<open>A checkpoint file that lacks a field\<close>

lemma loads_restore:
  "loads load (Some item) \<Longrightarrow> \<exists>s. restore load item = Inr s"
  by (cases item) (auto simp: loads_def restore_def split: option.splits)

lemma load_checkpoint_first_missing:
  assumes "torch_load b path = Some cp" and "first_missing cp = Some k"
    and "stored_items_load b m cp"
  shows "VAE__load_checkpoint b path m = Inl (KeyError k)"
proof -
  show ?thesis
  proof (cases "map_of cp ''encoder_state_dict''")
    case None
    with assms(1,2) show ?thesis
      by (auto simp: VAE__load_checkpoint_def getitem_def first_missing_def required_fields_def
               split: if_splits)
  next
    case e: (Some ei)
    with assms(3) loads_restore obtain enc where
      enc: "restore (load_state_dict b (encoder (torch m))) ei = Inr enc"
      by (fastforce simp: stored_items_load_def)
    show ?thesis
    proof (cases "map_of cp ''decoder_state_dict''")
      case None
      with assms(1,2) e enc show ?thesis
        by (auto simp: VAE__load_checkpoint_def getitem_def first_missing_def required_fields_def
               split: if_splits)
    next
      case d: (Some di)
      with assms(3) loads_restore obtain dec where
        dec: "restore (load_state_dict b (decoder (torch m))) di = Inr dec"
        by (fastforce simp: stored_items_load_def)
      show ?thesis
      proof (cases "map_of cp ''optimizer_state_dict''")
        case None
        with assms(1,2) e enc d dec show ?thesis
          by (auto simp: VAE__load_checkpoint_def getitem_def first_missing_def required_fields_def
               split: if_splits)
      next
        case o: (Some oi)
        with assms(3) loads_restore obtain opt where
          opt: "restore (optimizer_load_state_dict b (optimizer (torch m))) oi = Inr opt"
          by (fastforce simp: stored_items_load_def)
        from assms(2) e d o have "map_of cp ''epoch'' = None \<and> k = ''epoch''"
          by (auto simp: first_missing_def required_fields_def split: if_splits)
        with assms(1) e enc d dec o opt show ?thesis
          by (simp add: VAE__load_checkpoint_def getitem_def)
      qed
    qed
  qed
qed

text \<open>
  Claim C6. Loading a checkpoint file that lacks one of the four fields
  \<^verbatim>\<open>encoder_state_dict\<close>, \<^verbatim>\<open>decoder_state_dict\<close>, \<^verbatim>\<open>optimizer_state_dict\<close>, \<^verbatim>\<open>epoch\<close> raises: a
  \<^verbatim>\<open>KeyError\<close> for a field the file lacks, unless an item read before it was already
  rejected. When \<^verbatim>\<open>train\<close> is given the path of such a file, that error leaves \<^verbatim>\<open>train\<close>
  before any hook is called and before any epoch is run; the run is not restarted from
  epoch 1. When the items present in the file do load, the error is the \<^verbatim>\<open>KeyError\<close> of
  the first field missing.
\<close>

theorem corrupt_checkpoint_aborts_resume:
  "(torch_load b path = Some cp \<longrightarrow> path \<noteq> [] \<longrightarrow> k \<in> set required_fields \<longrightarrow>
      map_of cp k = None \<longrightarrow>
      (\<exists>e. VAE__load_checkpoint b path m = Inl e
         \<and> (e = TypeError \<or> e = TorchError
              \<or> (\<exists>k' \<in> set required_fields. e = KeyError k' \<and> map_of cp k' = None))
         \<and> VAE_train b v L V epochs (Some path) cbs m
              = (fst (build_logs v cbs m), Inl (Controller e))
         \<and> fired (fst (build_logs v cbs m)) = []
         \<and> epochs_run p (fst (build_logs v cbs m)) = []))
   \<and> (torch_load b path = Some cp \<longrightarrow> first_missing cp = Some k \<longrightarrow> stored_items_load b m cp \<longrightarrow>
        VAE__load_checkpoint b path m = Inl (KeyError k))"
proof (intro conjI impI)
  assume a: "torch_load b path = Some cp" "path \<noteq> []" "k \<in> set required_fields"
    "map_of cp k = None"
  from load_checkpoint_missing [OF a(1,3,4), of m] obtain e where
    e: "VAE__load_checkpoint b path m = Inl e"
    "e = TypeError \<or> e = TorchError
       \<or> (\<exists>k' \<in> set required_fields. e = KeyError k' \<and> map_of cp k' = None)"
    by blast
  from VAE_train_load_fails [OF e(1) a(2)] e
  show "\<exists>e. VAE__load_checkpoint b path m = Inl e
         \<and> (e = TypeError \<or> e = TorchError
              \<or> (\<exists>k' \<in> set required_fields. e = KeyError k' \<and> map_of cp k' = None))
         \<and> VAE_train b v L V epochs (Some path) cbs m
              = (fst (build_logs v cbs m), Inl (Controller e))
         \<and> fired (fst (build_logs v cbs m)) = []
         \<and> epochs_run p (fst (build_logs v cbs m)) = []"
    by auto
next
  assume "torch_load b path = Some cp" "first_missing cp = Some k" "stored_items_load b m cp"
  then show "VAE__load_checkpoint b path m = Inl (KeyError k)"
    by (rule load_checkpoint_first_missing)
qed

theorem corrupt_checkpoint_aborts_resume_witness:
  "VAE_train (backend_with_file ''epoch-3.pt'' corrupt_checkpoint) default_vae (toy_loader 10)
      (toy_loader 4) 5 (Some ''epoch-3.pt'') [quiet_callback] (toy_machine ())
     = ([Wrote ''model'' (ObjRef 0), Wrote ''optimizer'' (ObjRef 1)],
        Inl (Controller (KeyError ''epoch'')))"
proof -
  let ?b = "backend_with_file ''epoch-3.pt'' corrupt_checkpoint"
  note th = corrupt_checkpoint_aborts_resume
      [of ?b "''epoch-3.pt''" corrupt_checkpoint "''epoch''" "toy_machine ()" default_vae
          "toy_loader 10" "toy_loader 4" 5 "[quiet_callback]" Training]
  have f: "torch_load ?b ''epoch-3.pt'' = Some corrupt_checkpoint"
    by (simp add: backend_with_file_def)
  have p: "''epoch-3.pt'' \<noteq> []" by simp
  have k: "''epoch'' \<in> set required_fields" by (simp add: required_fields_def)
  have mis: "map_of corrupt_checkpoint ''epoch'' = None" by (simp add: corrupt_checkpoint_def)
  have fm: "first_missing corrupt_checkpoint = Some ''epoch''"
    by (simp add: first_missing_def required_fields_def corrupt_checkpoint_def)
  have ok: "stored_items_load ?b (toy_machine ()) corrupt_checkpoint"
    by (simp add: stored_items_load_def loads_def corrupt_checkpoint_def backend_with_file_def
          toy_backend_def)
  from th [THEN conjunct2, rule_format, OF f fm ok]
  have e: "VAE__load_checkpoint ?b ''epoch-3.pt'' (toy_machine ()) = Inl (KeyError ''epoch'')" .
  from th [THEN conjunct1, rule_format, OF f p k mis] e
  have "VAE_train ?b default_vae (toy_loader 10) (toy_loader 4) 5 (Some ''epoch-3.pt'')
          [quiet_callback] (toy_machine ())
        = (fst (build_logs default_vae [quiet_callback] (toy_machine ())),
           Inl (Controller (KeyError ''epoch'')))"
    by auto
  then show ?thesis
    by (simp add: build_logs_def setitem_def and_then_Inr default_vae_def handle_def)
qed


subsection \<open>The averages of an epoch\<close>

lemma quiet_loss_callback: "quiet_within_epoch [loss_callback]"
  unfolding quiet_within_epoch_def
proof (intro ballI allI impI)
  fix c :: "(('a, 'b, lval option list \<times> lval option list) machine, 'c) callback"
    and h m
  assume "c \<in> set [loss_callback]" and "within_epoch h"
  then show "invoke c h m = Inr m"
    by (cases h) (simp_all add: loss_callback_def noop_callback_def)
qed

lemma for_each_accumulates:
  assumes hom: "P [] = []" "\<And>a b. P (a @ b) = P a @ P b"
    and body: "\<And>a s es s'. body a s = (es, Inr s') \<Longrightarrow> f s' = f s @ P es"
    and run: "for_each body xs s = (evs, Inr s')"
  shows "f s' = f s @ P evs"
  using run
proof (induction xs arbitrary: s evs)
  case Nil
  then show ?case by (simp add: hom)
next
  case (Cons a as)
  then obtain es s1 es' where 1: "body a s = (es, Inr s1)" and 2: "for_each body as s1 = (es', Inr s')"
    and 3: "evs = es @ es'"
    by (auto simp: and_then_succeeds)
  from Cons.IH [OF 2] body [OF 1] 3 show ?case by (simp add: hom)
qed

lemma run_epoch_logged:
  assumes run: "run_epoch b v L V cbs e m = (evs, Inr m')" and q: "quiet_within_epoch cbs"
    and c: "cbs \<noteq> []"
  shows "\<exists>m3 es3. fire cbs (On_epoch_end e) m3 = (es3, Inr m') \<and> world m3 = world m
     \<and> written ''train_loss_average'' evs
          = [FloatV (sum_list (batch_losses Training evs) / real (length L))]
     \<and> written ''valid_loss'' evs
          = [FloatV (sum_list (batch_losses Validation evs) / real (length V))]
     \<and> map_of (logs m3) ''train_loss_average''
          = Some (FloatV (sum_list (batch_losses Training evs) / real (length L)))
     \<and> map_of (logs m3) ''valid_loss''
          = Some (FloatV (sum_list (batch_losses Validation evs) / real (length V)))"
proof -
  from run_epoch_succeeds [OF run] obtain es0 m1 es1 m2 es2 m3 es3 where
    f0: "fire cbs (On_epoch_begin e) m = (es0, Inr m1)"
    and t: "VAE__train b v L e cbs m1 = (es1, Inr m2)"
    and va: "VAE__validate b v V e cbs m2 = (es2, Inr m3)"
    and f3: "fire cbs (On_epoch_end e) m3 = (es3, Inr m')"
    and evs: "evs = es0 @ es1 @ es2 @ es3"
    by blast
  from fire_quiet_result [OF f0 q] have m1: "m1 = m" by simp
  have bt: "batch_losses Training evs = batch_losses Training es1"
    using evs fire_trace [OF f0] fire_trace [OF f3] VAE__validate_observed(5) [OF va] by simp
  have bv: "batch_losses Validation evs = batch_losses Validation es2"
    using evs fire_trace [OF f0] fire_trace [OF f3] VAE__train_observed(5) [OF t] by simp
  have wt: "written ''train_loss_average'' evs = written ''train_loss_average'' es1"
    using evs fire_trace [OF f0] fire_trace [OF f3] VAE__validate_observed(3) [OF va] by simp
  have wv: "written ''valid_loss'' evs = written ''valid_loss'' es2"
    using evs fire_trace [OF f0] fire_trace [OF f3] VAE__train_observed(3) [OF t] by simp
  have w: "world m3 = world m"
    using VAE__train_quiet [OF t q] VAE__validate_quiet(1) [OF va q] m1 by simp
  have lt: "map_of (logs m3) ''train_loss_average''
          = Some (FloatV (sum_list (batch_losses Training evs) / real (length L)))"
    using VAE__validate_quiet(2) [OF va q, of "''train_loss_average''"]
      VAE__train_observed(8) [OF t c] bt by simp
  have lv: "map_of (logs m3) ''valid_loss''
          = Some (FloatV (sum_list (batch_losses Validation evs) / real (length V)))"
    using VAE__validate_quiet(3) [OF va q c] bv by simp
  from VAE__train_observed(4) [OF t] VAE__validate_observed(4) [OF va] c wt wv bt bv
  have "written ''train_loss_average'' evs
          = [FloatV (sum_list (batch_losses Training evs) / real (length L))]"
    "written ''valid_loss'' evs
          = [FloatV (sum_list (batch_losses Validation evs) / real (length V))]"
    by simp_all
  with f3 w lt lv show ?thesis by blast
qed

lemma fire_loss_callback_epoch_end:
  "fire [loss_callback] (On_epoch_end e) m
     = ([Fired 0 (On_epoch_end e)],
        Inr (m\<lparr>world := (fst (world m) @ [map_of (logs m) ''train_loss_average''],
                          snd (world m) @ [map_of (logs m) ''valid_loss''])\<rparr>))"
  by (simp add: fire_def loss_callback_def noop_callback_def and_then_Inr)

lemma fire_loss_callback_train:
  "fire [loss_callback] On_train_begin m = ([Fired 0 On_train_begin], Inr (m\<lparr>world := ([], [])\<rparr>))"
  "fire [loss_callback] On_train_end m = ([Fired 0 On_train_end], Inr m)"
  by (simp_all add: fire_def loss_callback_def noop_callback_def and_then_Inr)

lemma run_epoch_loss_callback:
  assumes "run_epoch b v L V [loss_callback :: (('sd, 'r, lval option list \<times> lval option list) machine, 'x) callback] e m = (evs, Inr m')"
  shows "fst (world m') = fst (world m) @ map Some (written ''train_loss_average'' evs)"
    and "snd (world m') = snd (world m) @ map Some (written ''valid_loss'' evs)"
proof -

  from run_epoch_logged [OF assms quiet_loss_callback, simplified] obtain m3 es3 where
    "fire [loss_callback :: (('sd, 'r, lval option list \<times> lval option list) machine, 'x) callback] (On_epoch_end e) m3 = (es3, Inr m')"
    "world m3 = world m"
    "written ''train_loss_average'' evs
          = [FloatV (sum_list (batch_losses Training evs) / real (length L))]"
    "written ''valid_loss'' evs
          = [FloatV (sum_list (batch_losses Validation evs) / real (length V))]"
    "map_of (logs m3) ''train_loss_average''
          = Some (FloatV (sum_list (batch_losses Training evs) / real (length L)))"
    "map_of (logs m3) ''valid_loss''
          = Some (FloatV (sum_list (batch_losses Validation evs) / real (length V)))"
    by blast
  then show "fst (world m') = fst (world m) @ map Some (written ''train_loss_average'' evs)"
    and "snd (world m') = snd (world m) @ map Some (written ''valid_loss'' evs)"
    by (auto simp: fire_loss_callback_epoch_end)
qed

lemma VAE_train_loss_callback:
  assumes "VAE_train b v L V epochs ck [loss_callback :: (('sd, 'r, lval option list \<times> lval option list) machine, 'x) callback] m = (evs, Inr m')"
  shows "world m' = (map Some (written ''train_loss_average'' evs),
                     map Some (written ''valid_loss'' evs))"
proof -
  from VAE_train_succeeds [OF assms] obtain l m1 s es1 m2 es2 m3 es3 where
    f1: "fire [loss_callback :: (('sd, 'r, lval option list \<times> lval option list) machine, 'x) callback] On_train_begin m1 = (es1, Inr m2)"
    and loop: "for_each (run_epoch b v L V [loss_callback :: (('sd, 'r, lval option list \<times> lval option list) machine, 'x) callback]) [s..epochs] m2
                 = (es2, Inr m3)"
    and f3: "fire [loss_callback :: (('sd, 'r, lval option list \<times> lval option list) machine, 'x) callback] On_train_end m3 = (es3, Inr m')"
    and evs: "evs = fst (build_logs v [loss_callback :: (('sd, 'r, lval option list \<times> lval option list) machine, 'x) callback] m) @ es1 @ es2 @ es3"
    by blast
  from f1 have m2: "world m2 = ([], [])" and es1: "es1 = [Fired 0 On_train_begin]"
    by (auto simp: fire_loss_callback_train)
  from f3 have m': "m' = m3" and es3: "es3 = [Fired 0 On_train_end]"
    by (auto simp: fire_loss_callback_train)
  have a: "(fst \<circ> world) m3 = (fst \<circ> world) m2 @ map Some (written ''train_loss_average'' es2)"
    by (rule for_each_accumulates [OF _ _ _ loop]) (simp_all add: run_epoch_loss_callback(1))
  have b: "(snd \<circ> world) m3 = (snd \<circ> world) m2 @ map Some (written ''valid_loss'' es2)"
    by (rule for_each_accumulates [OF _ _ _ loop]) (simp_all add: run_epoch_loss_callback(2))
  from a b m2 m' evs es1 es3 show ?thesis by (simp add: prod_eq_iff)
qed

lemma VAE_train_counts:
  assumes "VAE_train b v L V epochs None cbs m = (evs, Inr m')" and "cbs \<noteq> []" and "0 \<le> epochs"
  shows "length (written ''train_loss_average'' evs) = nat epochs
      \<and> length (written ''valid_loss'' evs) = nat epochs"
  using VAE_train_observed [OF assms(1), of Training] assms(2,3) by auto

lemma VAE_train_loss_callback_two:
  assumes "VAE_train b v L V 2 None [loss_callback] m = (evs, Inr m')"
  shows "length (fst (world m')) = 2 \<and> length (snd (world m')) = 2"
  using VAE_train_loss_callback [OF assms] VAE_train_counts [OF assms] by simp

lemma never_raises_loss_callback: "never_raises [loss_callback]"
  unfolding never_raises_def
proof (intro ballI allI)
  fix c :: "(('a, 'b, lval option list \<times> lval option list) machine, 'c) callback"
    and h m
  assume "c \<in> set [loss_callback]"
  then show "\<exists>m'. invoke c h m = Inr m'"
    by (cases h) (simp_all add: loss_callback_def noop_callback_def)
qed

text \<open>
  Claim C8. With a callback attached, a training pass that returns assigns
  \<^verbatim>\<open>logs["train_loss_average"]\<close> once, the sum of the losses of its batches divided by the
  number of batches of the training source, and leaves that value in \<^verbatim>\<open>logs\<close>; a
  validation pass that returns assigns \<^verbatim>\<open>logs["valid_loss"]\<close> once, the sum of its batch
  losses divided by the number of validation batches. A run of \<^verbatim>\<open>train\<close> from epoch 1 that
  returns assigns each of the two once per epoch, so twice each in a run of 2 epochs; and
  the logging callback, which appends both values at every \<^verbatim>\<open>on_epoch_end\<close>, ends the run
  holding exactly the values assigned, 2 of each after 2 epochs.
\<close>

theorem epoch_averages_logged:
  "(VAE__train b v L e cbs m = (evs, Inr m') \<longrightarrow> cbs \<noteq> [] \<longrightarrow>
      written ''train_loss_average'' evs
        = [FloatV (sum_list (batch_losses Training evs) / real (length L))]
      \<and> length (batch_losses Training evs) = length L \<and> L \<noteq> []
      \<and> map_of (logs m') ''train_loss_average''
          = Some (FloatV (sum_list (batch_losses Training evs) / real (length L))))
   \<and> (VAE__validate b v V e cbs m = (evs, Inr m') \<longrightarrow> cbs \<noteq> [] \<longrightarrow>
      written ''valid_loss'' evs
        = [FloatV (sum_list (batch_losses Validation evs) / real (length V))]
      \<and> length (batch_losses Validation evs) = length V \<and> V \<noteq> [])
   \<and> (VAE_train b v L V epochs None cbs m = (evs, Inr m') \<longrightarrow> cbs \<noteq> [] \<longrightarrow> 0 \<le> epochs \<longrightarrow>
      length (written ''train_loss_average'' evs) = nat epochs
      \<and> length (written ''valid_loss'' evs) = nat epochs)
   \<and> (VAE_train b v L V 2 None cbs m = (evs, Inr m') \<longrightarrow> cbs \<noteq> [] \<longrightarrow>
      length (written ''train_loss_average'' evs) = 2
      \<and> length (written ''valid_loss'' evs) = 2)
   \<and> (VAE_train b v L V epochs ck [loss_callback] m0 = (evs0, Inr m0') \<longrightarrow>
      world m0' = (map Some (written ''train_loss_average'' evs0),
                   map Some (written ''valid_loss'' evs0)))
   \<and> (VAE_train b v L V 2 None [loss_callback] m0 = (evs0, Inr m0') \<longrightarrow>
      length (fst (world m0')) = 2 \<and> length (snd (world m0')) = 2)"
proof (intro conjI impI)
  assume r: "VAE__train b v L e cbs m = (evs, Inr m')" and c: "cbs \<noteq> []"
  from VAE__train_observed(4) [OF r] c
  show "written ''train_loss_average'' evs
        = [FloatV (sum_list (batch_losses Training evs) / real (length L))]" by simp
  from VAE__train_observed(6) [OF r] show "length (batch_losses Training evs) = length L" .
  from VAE__train_observed(7) [OF r] show "L \<noteq> []" .
  from VAE__train_observed(8) [OF r c] show "map_of (logs m') ''train_loss_average''
          = Some (FloatV (sum_list (batch_losses Training evs) / real (length L)))" .
next
  assume r: "VAE__validate b v V e cbs m = (evs, Inr m')" and c: "cbs \<noteq> []"
  from VAE__validate_observed(4) [OF r] c
  show "written ''valid_loss'' evs
        = [FloatV (sum_list (batch_losses Validation evs) / real (length V))]" by simp
  from VAE__validate_observed(6) [OF r] show "length (batch_losses Validation evs) = length V" .
  from VAE__validate_observed(7) [OF r] show "V \<noteq> []" .
next
  assume r: "VAE_train b v L V epochs None cbs m = (evs, Inr m')" and c: "cbs \<noteq> []"
    and e: "0 \<le> epochs"
  from VAE_train_counts [OF r c e]
  show "length (written ''train_loss_average'' evs) = nat epochs"
    and "length (written ''valid_loss'' evs) = nat epochs" by simp_all
next
  assume r: "VAE_train b v L V 2 None cbs m = (evs, Inr m')" and c: "cbs \<noteq> []"
  from VAE_train_counts [OF r c]
  show "length (written ''train_loss_average'' evs) = 2"
    and "length (written ''valid_loss'' evs) = 2" by simp_all
next
  assume "VAE_train b v L V epochs ck [loss_callback] m0 = (evs0, Inr m0')"
  then show "world m0' = (map Some (written ''train_loss_average'' evs0),
                   map Some (written ''valid_loss'' evs0))"
    by (rule VAE_train_loss_callback)
next
  assume r: "VAE_train b v L V 2 None [loss_callback] m0 = (evs0, Inr m0')"
  from VAE_train_loss_callback_two [OF r]
  show "length (fst (world m0')) = 2" and "length (snd (world m0')) = 2" by simp_all
qed

theorem epoch_averages_logged_witness:
  "\<exists>m'. snd (VAE_train toy_backend default_vae (toy_loader 10) (toy_loader 4) 2 None
               [loss_callback :: ((unit, unit, lval option list \<times> lval option list) machine,
                                  unit) callback]
               (toy_machine ([], []))) = Inr m'
        \<and> length (fst (world m')) = 2 \<and> length (snd (world m')) = 2"
proof -
  let ?run = "VAE_train toy_backend default_vae (toy_loader 10) (toy_loader 4) 2 None
               [loss_callback :: ((unit, unit, lval option list \<times> lval option list) machine, unit) callback]
               (toy_machine ([], []))"
  have "\<And>l. \<exists>r. start_epoch_of toy_backend None ((toy_machine ([], []))\<lparr>logs := l\<rparr>) = Inr r"
    by simp
  from VAE_train_returns [OF never_raises_loss_callback toy_loader_not_Nil(2)
      toy_loader_not_Nil(2) this, where v = default_vae and epochs = 2]
  obtain m' where s: "snd ?run = Inr m'" by blast
  then have r: "?run = (fst ?run, Inr m')" by (simp add: prod_eq_iff)
  from epoch_averages_logged [THEN conjunct2, THEN conjunct2, THEN conjunct2, THEN conjunct2,
      THEN conjunct2, rule_format, OF r] s
  show ?thesis by blast
qed


end
